theory Spec2Isabelle
  imports Complex_Main
begin

section \<open>Operation timing and batch status of the operations tracker\<close>

text \<open>
  A shallow embedding of the timing engine (\<^verbatim>\<open>app/services/operation_service.py\<close>),
  the batch aggregators (\<^verbatim>\<open>app/services/batch_service.py\<close>), the table
  \<^verbatim>\<open>operations_log\<close> with its constraints (\<^verbatim>\<open>app/models/operation.py\<close>), the role and
  batch registry (\<^verbatim>\<open>app/utils/constants.py\<close>), the past-date test
  (\<^verbatim>\<open>app/utils/timezone.py\<close>) and the request schema of the driver completion
  (\<^verbatim>\<open>app/schemas/operation.py\<close>).

  The database session is explicit state: the table is the list of its rows in insertion
  order, every service function takes the table and returns its result together with the
  table it leaves behind. A constraint violation at \<^verbatim>\<open>flush\<close> or \<^verbatim>\<open>commit\<close> is the value
  \<open>Inl IntegrityError\<close>; the \<^verbatim>\<open>except\<close> branches that roll back return the table
  the call started from. Failures of the storage itself (a lost connection) are not
  modelled, so the branches \<^verbatim>\<open>except Exception\<close> are reached by a constraint violation
  only. The two clock reads \<^verbatim>\<open>get_current_date()\<close> and
  \<^verbatim>\<open>get_current_time()\<close> are the parameters \<open>today\<close> and \<open>now\<close>.
\<close>

subsection \<open>Calendar dates\<close>

text \<open>
  A \<^verbatim>\<open>datetime.date\<close>: year, month and day, compared as the triple, with the weekday
  computed from the proleptic Gregorian ordinal as the standard library does.
\<close>

record date =
  year :: nat
  month :: nat
  day :: nat

definition date_lt :: "date \<Rightarrow> date \<Rightarrow> bool" where
  "date_lt a b \<longleftrightarrow>
     year a < year b \<or>
     (year a = year b \<and> (month a < month b \<or> (month a = month b \<and> day a < day b)))"

definition is_leap :: "nat \<Rightarrow> bool" where
  "is_leap y \<longleftrightarrow> y mod 4 = 0 \<and> (y mod 100 \<noteq> 0 \<or> y mod 400 = 0)"

definition days_before_year :: "nat \<Rightarrow> nat" where
  "days_before_year yr = (let y = yr - 1 in y * 365 + y div 4 - y div 100 + y div 400)"

definition DAYS_IN_MONTH :: "nat list" where
  "DAYS_IN_MONTH = [31, 28, 31, 30, 31, 30, 31, 31, 30, 31, 30, 31]"

definition days_before_month :: "nat \<Rightarrow> nat \<Rightarrow> nat" where
  "days_before_month yr m =
     sum_list (take (m - 1) DAYS_IN_MONTH) + (if m > 2 \<and> is_leap yr then 1 else 0)"

definition toordinal :: "date \<Rightarrow> nat" where
  "toordinal d = days_before_year (year d) + days_before_month (year d) (month d) + day d"

definition isoweekday :: "date \<Rightarrow> nat" where
  "isoweekday d = (if toordinal d mod 7 = 0 then 7 else toordinal d mod 7)"

subsection \<open>Role and batch registry\<close>

definition ROLE_ORDER :: "string list" where
  "ROLE_ORDER =
     [''Procurement'', ''Inventory QC - IN'', ''QC - Preppers'', ''Pre-stagers'',
      ''Extra Service Preppers'', ''Pickers and Packers'', ''QC-out'', ''Stock handler 1'',
      ''Stock handler 2'', ''Manifester'', ''Driver'']"

definition VALID_ROLES :: "string set" where
  "VALID_ROLES = set ROLE_ORDER"

definition TOTAL_ROLES :: nat where
  "TOTAL_ROLES = length ROLE_ORDER"

definition DRIVER_ROLE :: string where
  "DRIVER_ROLE = ''Driver''"

definition ALL_BATCHES :: "string list" where
  "ALL_BATCHES = [''A'', ''B'', ''C'', ''D'']"

definition RESTRICTED_BATCHES :: "string list" where
  "RESTRICTED_BATCHES = [''A'', ''B'', ''C'']"

definition VALID_BATCHES :: "string set" where
  "VALID_BATCHES = set ALL_BATCHES"

definition RESTRICTED_DAYS :: "nat set" where
  "RESTRICTED_DAYS = {1, 4}"

text \<open>\<^verbatim>\<open>list.index\<close>: the first position of the element, \<open>None\<close> for \<^verbatim>\<open>ValueError\<close>.\<close>

fun list_index :: "'a list \<Rightarrow> 'a \<Rightarrow> nat option" where
  "list_index [] x = None"
| "list_index (y # ys) x =
     (if y = x then Some 0 else map_option Suc (list_index ys x))"

definition get_role_index :: "string \<Rightarrow> int" where
  "get_role_index role =
     (case list_index ROLE_ORDER role of Some i \<Rightarrow> int i | None \<Rightarrow> - 1)"

definition get_previous_role :: "string \<Rightarrow> string option" where
  "get_previous_role role =
     (let index = get_role_index role
      in if index \<le> 0 then None else Some (ROLE_ORDER ! nat (index - 1)))"

definition get_available_batches_for_date :: "date \<Rightarrow> string list" where
  "get_available_batches_for_date operation_date =
     (let day_of_week = isoweekday operation_date
      in if day_of_week \<in> RESTRICTED_DAYS then RESTRICTED_BATCHES else ALL_BATCHES)"

definition is_past_date :: "date \<Rightarrow> date \<Rightarrow> bool" where
  "is_past_date today check_date \<longleftrightarrow> date_lt check_date today"

subsection \<open>The operations log\<close>

text \<open>
  A row of \<^verbatim>\<open>operations_log\<close>. Timestamps are seconds on the server clock. The columns
  \<^verbatim>\<open>day_of_week\<close>, \<^verbatim>\<open>month\<close> and \<^verbatim>\<open>year\<close> are written once from \<^verbatim>\<open>operation_date\<close> when
  the row is created and never again, so they are read off the date. The user columns hold
  the user the relationship resolves to.
\<close>

record user =
  user_id :: nat
  user_name :: string

record OperationsLog =
  operation_date :: date
  batch :: string
  operation_role :: string
  start_time :: "int option"
  end_time :: "int option"
  total_orders :: "int option"
  on_time_deliveries :: "int option"
  started_by_user :: "user option"
  completed_by_user :: "user option"

type_synonym db = "OperationsLog list"

datatype OperationStatus = PENDING | IN_PROGRESS | COMPLETED

definition status :: "OperationsLog \<Rightarrow> OperationStatus" where
  "status r =
     (if end_time r \<noteq> None then COMPLETED
      else if start_time r \<noteq> None then IN_PROGRESS
      else PENDING)"

text \<open>
  Rounding to two places in exact arithmetic: the nearest multiple of one hundredth, a tie
  going to the even neighbour. This is the reading of \<open>round(x, 2)\<close> on real numbers.
\<close>

definition round2 :: "rat \<Rightarrow> rat" where
  "round2 x =
     (let y = x * 100; n = \<lfloor>y\<rfloor>; f = y - of_int n
      in (if f < 1 / 2 then of_int n
          else if 1 / 2 < f then of_int (n + 1)
          else if even n then of_int n else of_int (n + 1)) / 100)"

text \<open>
  The source computes its percentages as \<^verbatim>\<open>round((a / b) * 100, 2)\<close> on Python floats,
  that is in binary64 arithmetic. A finite double is \<open>m * 2 ^ e\<close> with an integer
  significand, kept as the pair \<open>(m, e)\<close>. Division and multiplication return the double
  nearest to the exact result, a tie going to the even significand (of 53 bits, the
  exponent staying in the normal range, which the 32-bit integer columns of the table
  guarantee for the quotients taken here). \<^verbatim>\<open>round(x, 2)\<close> rounds the exact value of the
  double \<open>x\<close> to two decimal places, ties to even, and returns the double nearest to that
  decimal, which prints as it; the model returns the decimal.
\<close>

function bit_length :: "int \<Rightarrow> nat" where
  "bit_length n = (if n \<le> 0 then 0 else Suc (bit_length (n div 2)))"
  by pat_completeness auto
termination
  by (relation "measure nat") auto

text \<open>The integer nearest to \<open>n / d\<close> for \<open>d > 0\<close>, ties to even.\<close>

definition round_half_even :: "int \<Rightarrow> int \<Rightarrow> int" where
  "round_half_even n d =
     (let q = n div d; r = n mod d
      in if 2 * r < d then q else if d < 2 * r then q + 1 else if even q then q else q + 1)"

type_synonym double = "int \<times> int"

definition double_value :: "double \<Rightarrow> rat" where
  "double_value x =
     (case x of (m, e) \<Rightarrow>
        if 0 \<le> e then of_int (m * 2 ^ nat e) else of_int m / of_int (2 ^ nat (- e)))"

text \<open>
  The double nearest to \<open>n / d\<close> for \<open>d > 0\<close>: with \<open>2 ^ e \<le> \<bar>n\<bar> / d < 2 ^ (e + 1)\<close>, the
  significand is \<open>\<bar>n\<bar> / d * 2 ^ (52 - e)\<close> rounded to an integer.
\<close>

definition nearest_double :: "int \<Rightarrow> int \<Rightarrow> double" where
  "nearest_double n d =
     (if n = 0 then (0, 0)
      else
        (let a = \<bar>n\<bar>;
             e0 = int (bit_length a) - int (bit_length d);
             below = (if 0 \<le> e0 then a < d * 2 ^ nat e0 else a * 2 ^ nat (- e0) < d);
             e = (if below then e0 - 1 else e0);
             k = 52 - e;
             m = (if 0 \<le> k then round_half_even (a * 2 ^ nat k) d
                  else round_half_even a (d * 2 ^ nat (- k)))
         in (sgn n * m, - k)))"

text \<open>\<^verbatim>\<open>a / b\<close> on two integers, and \<^verbatim>\<open>x * c\<close> on a double and an integer constant.\<close>

definition float_div :: "int \<Rightarrow> int \<Rightarrow> double" where
  "float_div a b = nearest_double a b"

definition float_mul :: "double \<Rightarrow> int \<Rightarrow> double" where
  "float_mul x c =
     (case x of (m, e) \<Rightarrow>
        if 0 \<le> e then nearest_double (m * c * 2 ^ nat e) 1
        else nearest_double (m * c) (2 ^ nat (- e)))"

definition py_round2 :: "double \<Rightarrow> rat" where
  "py_round2 x =
     (case x of (m, e) \<Rightarrow>
        of_int (if 0 \<le> e then m * 100 * 2 ^ nat e
                else round_half_even (m * 100) (2 ^ nat (- e))) / 100)"

text \<open>\<^verbatim>\<open>round((a / b) * 100, 2)\<close>.\<close>

definition float_percentage :: "int \<Rightarrow> int \<Rightarrow> rat" where
  "float_percentage a b = py_round2 (float_mul (float_div a b) 100)"

definition on_time_percentage :: "OperationsLog \<Rightarrow> rat option" where
  "on_time_percentage r =
     (case total_orders r of
        None \<Rightarrow> None
      | Some t \<Rightarrow>
          if t \<noteq> 0 \<and> t > 0 then
            (case on_time_deliveries r of
               None \<Rightarrow> None
             | Some a \<Rightarrow> Some (float_percentage a t))
          else None)"

subsection \<open>Table constraints\<close>

text \<open>
  The constraints of \<^verbatim>\<open>__table_args__\<close>. A CHECK constraint rejects a row only when its
  condition is false; a comparison with NULL is unknown and passes.
\<close>

definition op_key :: "OperationsLog \<Rightarrow> date \<times> string \<times> string" where
  "op_key r = (operation_date r, batch r, operation_role r)"

definition unique_operation :: "db \<Rightarrow> bool" where
  "unique_operation rows \<longleftrightarrow> distinct (map op_key rows)"

definition valid_batch :: "OperationsLog \<Rightarrow> bool" where
  "valid_batch r \<longleftrightarrow> batch r \<in> VALID_BATCHES"

definition valid_role :: "OperationsLog \<Rightarrow> bool" where
  "valid_role r \<longleftrightarrow> operation_role r \<in> VALID_ROLES"

definition end_after_start :: "OperationsLog \<Rightarrow> bool" where
  "end_after_start r \<longleftrightarrow>
     (case end_time r of
        None \<Rightarrow> True
      | Some e \<Rightarrow> (case start_time r of None \<Rightarrow> True | Some s \<Rightarrow> e \<ge> s))"

definition valid_year :: "OperationsLog \<Rightarrow> bool" where
  "valid_year r \<longleftrightarrow> year (operation_date r) \<ge> 2024 \<and> year (operation_date r) \<le> 2100"

definition driver_orders_valid :: "OperationsLog \<Rightarrow> bool" where
  "driver_orders_valid r \<longleftrightarrow>
     operation_role r \<noteq> ''Driver'' \<or> end_time r = None \<or>
     (case total_orders r of None \<Rightarrow> False | Some t \<Rightarrow> t \<ge> 0)"

definition on_time_not_exceed_total :: "OperationsLog \<Rightarrow> bool" where
  "on_time_not_exceed_total r \<longleftrightarrow>
     (case on_time_deliveries r of
        None \<Rightarrow> True
      | Some a \<Rightarrow> (case total_orders r of None \<Rightarrow> True | Some t \<Rightarrow> a \<le> t))"

definition row_constraints :: "OperationsLog \<Rightarrow> bool" where
  "row_constraints r \<longleftrightarrow>
     valid_batch r \<and> valid_role r \<and> end_after_start r \<and> valid_year r \<and>
     driver_orders_valid r \<and> on_time_not_exceed_total r"

text \<open>
  The errors of a write: a violated constraint, or a value that does not fit its column.
  The two counts are \<^verbatim>\<open>Integer\<close> columns of 32 bits.
\<close>

datatype db_error = IntegrityError | DataError

definition in_integer_range :: "int \<Rightarrow> bool" where
  "in_integer_range n \<longleftrightarrow> - 2147483648 \<le> n \<and> n \<le> 2147483647"

text \<open>\<^verbatim>\<open>db.add(operation)\<close> followed by a flush: the INSERT of one row.\<close>

definition insert_row :: "db \<Rightarrow> OperationsLog \<Rightarrow> db_error + db" where
  "insert_row rows r =
     (if row_constraints r \<and> op_key r \<notin> set (map op_key rows)
      then Inr (rows @ [r]) else Inl IntegrityError)"

text \<open>
  An attribute assignment on the object a query returned, flushed at \<^verbatim>\<open>commit\<close>: the
  UPDATE of that row, which is the first one the query's filter matches.
\<close>

fun update_first :: "('a \<Rightarrow> bool) \<Rightarrow> ('a \<Rightarrow> 'a) \<Rightarrow> 'a list \<Rightarrow> 'a list" where
  "update_first P f [] = []"
| "update_first P f (x # xs) = (if P x then f x # xs else x # update_first P f xs)"

definition update_row ::
  "db \<Rightarrow> (OperationsLog \<Rightarrow> bool) \<Rightarrow> OperationsLog \<Rightarrow> db_error + db" where
  "update_row rows P r' =
     (if row_constraints r' then Inr (update_first P (\<lambda>_. r') rows) else Inl IntegrityError)"

subsection \<open>Operation service\<close>

datatype message =
    OPERATION_STARTED
  | OPERATION_COMPLETED
  | OPERATION_ALREADY_STARTED
  | OPERATION_NOT_STARTED
  | OPERATION_ALREADY_COMPLETED
  | BATCH_NOT_AVAILABLE
  | READONLY_DATE
  | Failed_to_complete_operation db_error
  | Failed_to_complete_driver_operation db_error

text \<open>
  The third component of a service result: the conflict dictionary of a rejected start
  (\<^verbatim>\<open>error = "ALREADY_STARTED"\<close> with who and when), or the record with its optional
  warning.
\<close>

datatype response_data =
    ALREADY_STARTED string int
  | OperationData OperationsLog "string option"

type_synonym service_result = "bool \<times> message \<times> response_data option"

record OperationStart =
  start_operation_date :: date
  start_batch :: string
  start_role :: string

record OperationEnd =
  end_operation_date :: date
  end_batch :: string
  end_role :: string

record DriverEnd =
  driver_operation_date :: date
  driver_batch :: string
  driver_total_orders :: int
  driver_on_time_deliveries :: int

definition matches :: "date \<Rightarrow> string \<Rightarrow> string \<Rightarrow> OperationsLog \<Rightarrow> bool" where
  "matches d b role r \<longleftrightarrow> operation_date r = d \<and> batch r = b \<and> operation_role r = role"

definition get_operation :: "db \<Rightarrow> date \<Rightarrow> string \<Rightarrow> string \<Rightarrow> OperationsLog option" where
  "get_operation rows d b role = find (matches d b role) rows"

definition get_batch_operations :: "db \<Rightarrow> date \<Rightarrow> string \<Rightarrow> OperationsLog list" where
  "get_batch_operations rows d b =
     filter (\<lambda>r. operation_date r = d \<and> batch r = b) rows"

definition new_operation :: "date \<Rightarrow> string \<Rightarrow> string \<Rightarrow> OperationsLog" where
  "new_operation d b role =
     \<lparr>operation_date = d, batch = b, operation_role = role,
      start_time = None, end_time = None, total_orders = None, on_time_deliveries = None,
      started_by_user = None, completed_by_user = None\<rparr>"

definition get_or_create_operation ::
  "db \<Rightarrow> date \<Rightarrow> string \<Rightarrow> string \<Rightarrow> db_error + (db \<times> OperationsLog)" where
  "get_or_create_operation rows d b role =
     (case get_operation rows d b role of
        Some operation \<Rightarrow> Inr (rows, operation)
      | None \<Rightarrow>
          (case insert_row rows (new_operation d b role) of
             Inl e \<Rightarrow> Inl e
           | Inr rows' \<Rightarrow> Inr (rows', new_operation d b role)))"

definition previous_warning :: "string \<Rightarrow> string" where
  "previous_warning previous_role =
     ''Previous operation '' @ [CHR 0x27] @ previous_role @ [CHR 0x27] @ '' not completed yet''"

definition start_warning :: "db \<Rightarrow> date \<Rightarrow> string \<Rightarrow> string \<Rightarrow> string option" where
  "start_warning rows d b role =
     (case get_previous_role role of
        None \<Rightarrow> None
      | Some previous_role \<Rightarrow>
          (case get_operation rows d b previous_role of
             None \<Rightarrow> None
           | Some prev_operation \<Rightarrow>
               if end_time prev_operation = None
               then Some (previous_warning previous_role) else None))"

definition start_operation ::
  "db \<Rightarrow> date \<Rightarrow> int \<Rightarrow> OperationStart \<Rightarrow> user \<Rightarrow> service_result \<times> db" where
  "start_operation rows today now data usr =
     (let d = start_operation_date data; b = start_batch data; role = start_role data
      in if b \<notin> set (get_available_batches_for_date d)
         then ((False, BATCH_NOT_AVAILABLE, None), rows)
         else if is_past_date today d
         then ((False, READONLY_DATE, None), rows)
         else
           (case get_or_create_operation rows d b role of
              Inl e \<Rightarrow> ((False, OPERATION_ALREADY_STARTED, None), rows)
            | Inr (rows1, operation) \<Rightarrow>
                (case start_time operation of
                   Some t \<Rightarrow>
                     ((False, OPERATION_ALREADY_STARTED,
                       Some (ALREADY_STARTED
                         (case started_by_user operation of
                            Some u \<Rightarrow> user_name u | None \<Rightarrow> ''Unknown'') t)), rows)
                 | None \<Rightarrow>
                     (let warning = start_warning rows1 d b role;
                          operation' = operation\<lparr>start_time := Some now,
                                                   started_by_user := Some usr\<rparr>
                      in case update_row rows1 (matches d b role) operation' of
                           Inl e \<Rightarrow> ((False, OPERATION_ALREADY_STARTED, None), rows)
                         | Inr rows2 \<Rightarrow>
                             ((True, OPERATION_STARTED,
                               Some (OperationData operation' warning)), rows2)))))"

definition end_operation ::
  "db \<Rightarrow> date \<Rightarrow> int \<Rightarrow> OperationEnd \<Rightarrow> user \<Rightarrow> service_result \<times> db" where
  "end_operation rows today now data usr =
     (let d = end_operation_date data; b = end_batch data; role = end_role data
      in if is_past_date today d
         then ((False, READONLY_DATE, None), rows)
         else
           (case get_operation rows d b role of
              None \<Rightarrow> ((False, OPERATION_NOT_STARTED, None), rows)
            | Some operation \<Rightarrow>
                if end_time operation \<noteq> None
                then ((False, OPERATION_ALREADY_COMPLETED, None), rows)
                else if start_time operation = None
                then ((False, OPERATION_NOT_STARTED, None), rows)
                else
                  (let operation' = operation\<lparr>end_time := Some now,
                                                completed_by_user := Some usr\<rparr>
                   in case update_row rows (matches d b role) operation' of
                        Inl e \<Rightarrow> ((False, Failed_to_complete_operation e, None), rows)
                      | Inr rows' \<Rightarrow>
                          ((True, OPERATION_COMPLETED,
                            Some (OperationData operation' None)), rows'))))"

definition get_incomplete_roles :: "db \<Rightarrow> date \<Rightarrow> string \<Rightarrow> string \<Rightarrow> string list" where
  "get_incomplete_roles rows d b exclude_role =
     filter
       (\<lambda>role. role \<noteq> exclude_role \<and>
          (case get_operation rows d b role of
             None \<Rightarrow> True | Some operation \<Rightarrow> end_time operation = None))
       ROLE_ORDER"

text \<open>\<^verbatim>\<open>', '.join(names)\<close>.\<close>

fun join_comma :: "string list \<Rightarrow> string" where
  "join_comma [] = []"
| "join_comma [x] = x"
| "join_comma (x # y # ys) = x @ '', '' @ join_comma (y # ys)"

definition end_driver_operation ::
  "db \<Rightarrow> date \<Rightarrow> int \<Rightarrow> DriverEnd \<Rightarrow> user \<Rightarrow> service_result \<times> db" where
  "end_driver_operation rows today now data usr =
     (let d = driver_operation_date data; b = driver_batch data
      in if is_past_date today d
         then ((False, READONLY_DATE, None), rows)
         else
           (case get_operation rows d b DRIVER_ROLE of
              None \<Rightarrow> ((False, OPERATION_NOT_STARTED, None), rows)
            | Some operation \<Rightarrow>
                if end_time operation \<noteq> None
                then ((False, OPERATION_ALREADY_COMPLETED, None), rows)
                else if start_time operation = None
                then ((False, OPERATION_NOT_STARTED, None), rows)
                else
                  (let incomplete_roles = get_incomplete_roles rows d b DRIVER_ROLE;
                       warning = (if incomplete_roles \<noteq> []
                                  then Some (''Roles not completed: '' @
                                             join_comma incomplete_roles)
                                  else None);
                       operation' = operation\<lparr>end_time := Some now,
                                                completed_by_user := Some usr,
                                                total_orders := Some (driver_total_orders data),
                                                on_time_deliveries :=
                                                  Some (driver_on_time_deliveries data)\<rparr>
                   in if \<not> (in_integer_range (driver_total_orders data) \<and>
                             in_integer_range (driver_on_time_deliveries data))
                      then ((False, Failed_to_complete_driver_operation DataError, None), rows)
                      else
                      case update_row rows (matches d b DRIVER_ROLE) operation' of
                        Inl e \<Rightarrow> ((False, Failed_to_complete_driver_operation e, None), rows)
                      | Inr rows' \<Rightarrow>
                          ((True, OPERATION_COMPLETED,
                            Some (OperationData operation' warning)), rows'))))"

record PreviousRoleCheck =
  current_role :: string
  previous_role :: "string option"
  is_previous_completed :: bool
  show_warning :: bool
  warning_message :: "string option"

definition check_previous_role :: "db \<Rightarrow> date \<Rightarrow> string \<Rightarrow> string \<Rightarrow> PreviousRoleCheck" where
  "check_previous_role rows d b role =
     (case get_previous_role role of
        None \<Rightarrow>
          \<lparr>current_role = role, previous_role = None, is_previous_completed = True,
           show_warning = False, warning_message = None\<rparr>
      | Some prev \<Rightarrow>
          (let prev_operation = get_operation rows d b prev;
               is_completed =
                 (case prev_operation of None \<Rightarrow> False | Some p \<Rightarrow> end_time p \<noteq> None);
               show = (\<not> is_completed);
               msg = (if show
                      then Some (''Previous operation '' @ [CHR 0x27] @ prev @ [CHR 0x27] @
                                 '' not completed yet. Continue anyway?'')
                      else None)
           in \<lparr>current_role = role, previous_role = Some prev,
               is_previous_completed = is_completed,
               show_warning = show, warning_message = msg\<rparr>))"

subsection \<open>Batch service\<close>

datatype BatchStatus = RED | YELLOW | GREEN

record BatchStatusResponse =
  status_batch :: string
  batch_status :: BatchStatus
  started_count :: nat
  completed_count :: nat
  total_roles :: nat
  progress_percentage :: rat

definition calculate_batch_status :: "db \<Rightarrow> date \<Rightarrow> string \<Rightarrow> BatchStatusResponse" where
  "calculate_batch_status rows d b =
     (let started =
            length (filter (\<lambda>r. operation_date r = d \<and> batch r = b \<and> start_time r \<noteq> None) rows);
          completed =
            length (filter (\<lambda>r. operation_date r = d \<and> batch r = b \<and> end_time r \<noteq> None) rows);
          st = (if started = 0 then RED
                else if completed \<ge> TOTAL_ROLES then GREEN
                else YELLOW)
      in \<lparr>status_batch = b, batch_status = st, started_count = started,
          completed_count = completed, total_roles = TOTAL_ROLES,
          progress_percentage = float_percentage (int completed) (int TOTAL_ROLES)\<rparr>)"

definition is_batch_available :: "date \<Rightarrow> string \<Rightarrow> bool" where
  "is_batch_available d b \<longleftrightarrow> b \<in> set (get_available_batches_for_date d)"

text \<open>
  The session does not flush before a query, so the rows added in the loop of
  \<^verbatim>\<open>initialize_batch\<close> stay pending until \<^verbatim>\<open>commit\<close> inserts them in the order they were
  added; one rejected row rolls the whole call back.
\<close>

fun insert_all :: "db \<Rightarrow> OperationsLog list \<Rightarrow> db_error + db" where
  "insert_all rows [] = Inr rows"
| "insert_all rows (r # rs) =
     (case insert_row rows r of Inl e \<Rightarrow> Inl e | Inr rows' \<Rightarrow> insert_all rows' rs)"

definition pending_roles :: "db \<Rightarrow> date \<Rightarrow> string \<Rightarrow> OperationsLog list" where
  "pending_roles rows d b =
     map (new_operation d b) (filter (\<lambda>role. get_operation rows d b role = None) ROLE_ORDER)"

definition initialize_batch :: "db \<Rightarrow> date \<Rightarrow> string \<Rightarrow> bool \<times> db" where
  "initialize_batch rows d b =
     (if \<not> is_batch_available d b then (False, rows)
      else case insert_all rows (pending_roles rows d b) of
             Inl e \<Rightarrow> (False, rows)
           | Inr rows' \<Rightarrow> (True, rows'))"

record DailySummary =
  summary_date :: date
  total_batches :: nat
  completed_batches :: nat
  total_role_slots :: nat
  completed_roles :: nat
  overall_progress :: rat
  total_orders_delivered :: "int option"
  total_on_time_deliveries :: "int option"
  overall_on_time_percentage :: "rat option"

text \<open>
  The loop variables of \<^verbatim>\<open>get_daily_summary\<close>: completed batches (\<open>n_completed\<close>), completed roles, total
  orders and on-time deliveries. An integer is truthy when it is not zero.
\<close>

type_synonym summary_acc = "nat \<times> nat \<times> int \<times> int"

definition summary_step :: "db \<Rightarrow> date \<Rightarrow> summary_acc \<Rightarrow> string \<Rightarrow> summary_acc" where
  "summary_step rows d acc b =
     (case acc of (n_completed, total_completed_roles, total_orders_acc, total_on_time) \<Rightarrow>
        (let st = calculate_batch_status rows d b;
             total_completed_roles' = total_completed_roles + completed_count st;
             n_completed' =
               (if batch_status st = GREEN then n_completed + 1 else n_completed)
         in case get_operation rows d b ''Driver'' of
              None \<Rightarrow>
                (n_completed', total_completed_roles', total_orders_acc, total_on_time)
            | Some driver_op \<Rightarrow>
                (case total_orders driver_op of
                   None \<Rightarrow>
                     (n_completed', total_completed_roles', total_orders_acc, total_on_time)
                 | Some t \<Rightarrow>
                     if t \<noteq> 0 then
                       (n_completed', total_completed_roles', total_orders_acc + t,
                        (case on_time_deliveries driver_op of
                           None \<Rightarrow> total_on_time
                         | Some a \<Rightarrow> if a \<noteq> 0 then total_on_time + a else total_on_time))
                     else
                       (n_completed', total_completed_roles', total_orders_acc,
                        total_on_time))))"

definition get_daily_summary :: "db \<Rightarrow> date \<Rightarrow> DailySummary" where
  "get_daily_summary rows d =
     (let available_batches = get_available_batches_for_date d;
          n_batches = length available_batches
      in case foldl (summary_step rows d) (0, 0, 0, 0) available_batches of
           (n_completed, total_completed_roles, total_orders_acc, total_on_time) \<Rightarrow>
             (let slots = n_batches * TOTAL_ROLES
              in \<lparr>summary_date = d, total_batches = n_batches,
                  completed_batches = n_completed,
                  total_role_slots = slots, completed_roles = total_completed_roles,
                  overall_progress =
                    (if slots > 0
                     then float_percentage (int total_completed_roles) (int slots)
                     else 0),
                  total_orders_delivered =
                    (if total_orders_acc > 0 then Some total_orders_acc else None),
                  total_on_time_deliveries =
                    (if total_on_time > 0 then Some total_on_time else None),
                  overall_on_time_percentage =
                    (if total_orders_acc > 0
                     then Some (float_percentage total_on_time total_orders_acc)
                     else None)\<rparr>))"

subsection \<open>Request validation of the driver completion\<close>

text \<open>
  The schema \<^verbatim>\<open>DriverEnd\<close>: the batch is one character that upper-cases into the valid
  batches (\<open>upper_char\<close> maps the ASCII letters and leaves every other character alone:
  none of them upper-cases to a batch letter, and a blank, which \<^verbatim>\<open>strip\<close> would
  remove, is no batch either), both counts are at least zero (\<^verbatim>\<open>ge=0\<close>), and \<^verbatim>\<open>validate_order_counts\<close> runs
  on a request whose fields passed. The route hands the validated request to the service
  and never calls it on a rejected one.
\<close>

datatype validation_error = VALIDATION

definition upper_char :: "char \<Rightarrow> char" where
  "upper_char c =
     (case list_index ''abcdefghijklmnopqrstuvwxyz'' c of
        Some i \<Rightarrow> ''ABCDEFGHIJKLMNOPQRSTUVWXYZ'' ! i
      | None \<Rightarrow> c)"

definition validate_batch :: "string \<Rightarrow> validation_error + string" where
  "validate_batch v =
     (if length v \<noteq> 1 then Inl VALIDATION
      else (let v' = map upper_char v
            in if v' \<notin> VALID_BATCHES then Inl VALIDATION else Inr v'))"

definition validate_order_counts :: "DriverEnd \<Rightarrow> validation_error + DriverEnd" where
  "validate_order_counts data =
     (if driver_on_time_deliveries data > driver_total_orders data
      then Inl VALIDATION else Inr data)"

definition validate_DriverEnd :: "DriverEnd \<Rightarrow> validation_error + DriverEnd" where
  "validate_DriverEnd raw =
     (case validate_batch (driver_batch raw) of
        Inl e \<Rightarrow> Inl e
      | Inr b \<Rightarrow>
          if \<not> driver_total_orders raw \<ge> 0 then Inl VALIDATION
          else if \<not> driver_on_time_deliveries raw \<ge> 0 then Inl VALIDATION
          else validate_order_counts (raw\<lparr>driver_batch := b\<rparr>))"

definition end_driver_route ::
  "db \<Rightarrow> date \<Rightarrow> int \<Rightarrow> DriverEnd \<Rightarrow> user \<Rightarrow> (validation_error + service_result) \<times> db" where
  "end_driver_route rows today now raw usr =
     (case validate_DriverEnd raw of
        Inl e \<Rightarrow> (Inl e, rows)
      | Inr data \<Rightarrow>
          (case end_driver_operation rows today now data usr of
             (res, rows') \<Rightarrow> (Inr res, rows')))"

subsection \<open>Well-formed tables\<close>

text \<open>
  What every table the service can reach satisfies: the constraints the database enforces
  on every row, the uniqueness of the key, and that only a started record carries an end
  time (the service sets \<open>end_time\<close> only after it has seen \<open>start_time\<close> set).
\<close>

definition started_before_ended :: "OperationsLog \<Rightarrow> bool" where
  "started_before_ended r \<longleftrightarrow> (end_time r \<noteq> None \<longrightarrow> start_time r \<noteq> None)"

definition wf_db :: "db \<Rightarrow> bool" where
  "wf_db rows \<longleftrightarrow>
     unique_operation rows \<and> list_all row_constraints rows \<and>
     list_all started_before_ended rows"

subsection \<open>Sample data\<close>

text \<open>Monday 15, Tuesday 16 and Wednesday 17 January 2024, and two users.\<close>

definition monday :: date where
  "monday = \<lparr>year = 2024, month = 1, day = 15\<rparr>"

definition tuesday :: date where
  "tuesday = \<lparr>year = 2024, month = 1, day = 16\<rparr>"

definition wednesday :: date where
  "wednesday = \<lparr>year = 2024, month = 1, day = 17\<rparr>"

definition ada :: user where
  "ada = \<lparr>user_id = 1, user_name = ''Ada''\<rparr>"

definition ben :: user where
  "ben = \<lparr>user_id = 2, user_name = ''Ben''\<rparr>"

subsection \<open>Derived status\<close>

text \<open>
  C3. The status of a record is computed from its two timestamps alone: COMPLETED when
  \<open>end_time\<close> is set, IN_PROGRESS when \<open>start_time\<close> is set and \<open>end_time\<close> is
  not, PENDING when \<open>start_time\<close> is not set. The record type has no status field, and two
  records with the same timestamps have the same status. The PENDING case is read on the
  records of the data model, where an end time is only ever set on a started record.
\<close>

theorem status_pure_function_of_timestamps:
  "(end_time r \<noteq> None \<longrightarrow> status r = COMPLETED) \<and>
   (start_time r \<noteq> None \<and> end_time r = None \<longrightarrow> status r = IN_PROGRESS) \<and>
   ((end_time r \<noteq> None \<longrightarrow> start_time r \<noteq> None) \<and> start_time r = None
      \<longrightarrow> status r = PENDING) \<and>
   (\<forall>r'. start_time r' = start_time r \<and> end_time r' = end_time r
      \<longrightarrow> status r' = status r)"
  by (auto simp: status_def)

theorem status_pure_function_of_timestamps_witness:
  "end_time (new_operation tuesday ''A'' ''Procurement'') = None \<and>
   start_time (new_operation tuesday ''A'' ''Procurement'') = None \<and>
   status (new_operation tuesday ''A'' ''Procurement'') = PENDING"
  using status_pure_function_of_timestamps [of "new_operation tuesday ''A'' ''Procurement''"]
  by (simp add: new_operation_def)

subsection \<open>Facts about the registry and the table\<close>

lemma isoweekday_monday: "isoweekday monday = 1"
  by (simp add: isoweekday_def toordinal_def monday_def days_before_year_def days_before_month_def DAYS_IN_MONTH_def is_leap_def)

lemma isoweekday_tuesday: "isoweekday tuesday = 2"
  by (simp add: isoweekday_def toordinal_def tuesday_def days_before_year_def days_before_month_def DAYS_IN_MONTH_def is_leap_def)

lemma ROLE_ORDER_distinct: "distinct ROLE_ORDER"
  by (simp add: ROLE_ORDER_def)

lemma TOTAL_ROLES_11: "TOTAL_ROLES = 11"
  by (simp add: TOTAL_ROLES_def ROLE_ORDER_def)

lemma get_operation_None_iff:
  "get_operation rows d b role = None \<longleftrightarrow> (d, b, role) \<notin> set (map op_key rows)"
  by (auto simp: get_operation_def find_None_iff matches_def op_key_def)

lemma get_operation_SomeD:
  "get_operation rows d b role = Some r \<Longrightarrow> r \<in> set rows \<and> matches d b role r"
  by (auto simp: get_operation_def find_Some_iff)

lemma matches_key: "matches d b role r \<longleftrightarrow> op_key r = (d, b, role)"
  by (auto simp: matches_def op_key_def)

lemma update_first_keys:
  "(\<And>x. P x \<Longrightarrow> k (f x) = k x) \<Longrightarrow> map k (update_first P f xs) = map k xs"
  by (induction xs) auto

lemma find_update_first:
  "find P xs = Some x \<Longrightarrow> P (f x) \<Longrightarrow> find P (update_first P f xs) = Some (f x)"
  by (induction xs) (auto split: if_splits)

lemma update_row_keys:
  "update_row rows (matches d b role) r' = Inr rows' \<Longrightarrow> matches d b role r'
     \<Longrightarrow> map op_key rows' = map op_key rows"
  by (auto simp: update_row_def matches_key split: if_splits intro!: update_first_keys)

lemma insert_row_keys:
  "insert_row rows r = Inr rows' \<Longrightarrow> rows' = rows @ [r] \<and> op_key r \<notin> set (map op_key rows) \<and> row_constraints r"
  by (auto simp: insert_row_def split: if_splits)

lemma insert_row_unique:
  "insert_row rows r = Inr rows' \<Longrightarrow> unique_operation rows \<Longrightarrow> unique_operation rows'"
  by (auto simp: insert_row_def unique_operation_def split: if_splits)

lemma insert_all_unique:
  "insert_all rows rs = Inr rows' \<Longrightarrow> unique_operation rows \<Longrightarrow> unique_operation rows'"
  by (induction rs arbitrary: rows) (auto split: sum.splits dest: insert_row_unique)


lemma start_operation_unique:
  "unique_operation rows \<Longrightarrow> unique_operation (snd (start_operation rows today now data usr))"
  unfolding start_operation_def Let_def get_or_create_operation_def
  by (auto split: sum.splits option.splits prod.splits
      dest!: get_operation_SomeD insert_row_keys update_row_keys
      simp: unique_operation_def matches_def new_operation_def)


lemma end_operation_keys:
  "map op_key (snd (end_operation rows today now data usr)) = map op_key rows"
  unfolding end_operation_def Let_def
  by (auto split: sum.splits option.splits
      dest!: get_operation_SomeD update_row_keys simp: matches_def)

lemma end_driver_operation_keys:
  "map op_key (snd (end_driver_operation rows today now data usr)) = map op_key rows"
  unfolding end_driver_operation_def Let_def
  by (auto split: sum.splits option.splits
      dest!: get_operation_SomeD update_row_keys simp: matches_def)

lemma initialize_batch_unique:
  "unique_operation rows \<Longrightarrow> unique_operation (snd (initialize_batch rows d b))"
  by (auto simp: initialize_batch_def split: sum.splits dest: insert_all_unique)



lemma get_operation_update_row:
  assumes "update_row rows (matches d b role) r' = Inr rows'"
      and "get_operation rows d b role = Some r" and "matches d b role r'"
  shows "get_operation rows' d b role = Some r'"
  using assms find_update_first [of "matches d b role" rows r "\<lambda>_. r'"]
  by (auto simp: update_row_def get_operation_def split: if_splits)







lemmas calendar_defs =
  isoweekday_def toordinal_def days_before_year_def days_before_month_def DAYS_IN_MONTH_def
  is_leap_def get_available_batches_for_date_def RESTRICTED_DAYS_def RESTRICTED_BATCHES_def
  ALL_BATCHES_def is_past_date_def date_lt_def monday_def tuesday_def wednesday_def

lemmas table_defs =
  row_constraints_def valid_batch_def valid_role_def end_after_start_def valid_year_def
  driver_orders_valid_def on_time_not_exceed_total_def VALID_BATCHES_def VALID_ROLES_def
  ROLE_ORDER_def insert_row_def update_row_def op_key_def matches_def get_operation_def
  new_operation_def get_or_create_operation_def


subsection \<open>One record per date, batch and role\<close>



subsection \<open>Well-formed tables stay well-formed\<close>

text \<open>
  The empty table is well-formed and each of the four operations takes a well-formed table
  to a well-formed one, so the theorems below that assume \<open>wf_db\<close> speak about every
  table the service can reach.
\<close>

lemma list_all_update_first:
  "list_all Q xs \<Longrightarrow> Q r' \<Longrightarrow> list_all Q (update_first P (\<lambda>_. r') xs)"
  by (induction xs) auto

lemma insert_all_list_all:
  assumes "insert_all rows rs = Inr rows'" and "list_all Q rows" and "list_all Q rs"
  shows "list_all Q rows'"
  using assms
proof (induction rs arbitrary: rows)
  case Nil
  then show ?case by simp
next
  case (Cons r rs)
  then show ?case
    by (auto simp: insert_row_def split: sum.splits if_splits)
qed

lemma insert_all_constraints:
  assumes "insert_all rows rs = Inr rows'" and "list_all row_constraints rows"
  shows "list_all row_constraints rows'"
  using assms
proof (induction rs arbitrary: rows)
  case Nil
  then show ?case by simp
next
  case (Cons r rs)
  then show ?case
    by (auto simp: insert_row_def split: sum.splits if_splits)
qed

lemma started_before_ended_new_operation: "started_before_ended (new_operation d b role)"
  by (simp add: started_before_ended_def new_operation_def)

lemma wf_db_start_operation:
  assumes "wf_db rows"
  shows "wf_db (snd (start_operation rows today now data usr))"
proof -
  have u: "unique_operation (snd (start_operation rows today now data usr))"
    using assms by (simp add: wf_db_def start_operation_unique)
  have "list_all row_constraints (snd (start_operation rows today now data usr)) \<and>
        list_all started_before_ended (snd (start_operation rows today now data usr))"
    using assms
    unfolding start_operation_def Let_def get_or_create_operation_def wf_db_def
    by (auto simp: update_row_def insert_row_def started_before_ended_def [of "_\<lparr>start_time := _, started_by_user := _\<rparr>"]
        started_before_ended_new_operation
        split: option.splits sum.splits if_splits intro!: list_all_update_first)
  with u show ?thesis
    by (simp add: wf_db_def)
qed

lemma wf_db_end_operation:
  assumes "wf_db rows"
  shows "wf_db (snd (end_operation rows today now data usr))"
proof -
  have u: "unique_operation (snd (end_operation rows today now data usr))"
    using assms by (simp add: wf_db_def unique_operation_def end_operation_keys)
  have "list_all row_constraints (snd (end_operation rows today now data usr)) \<and>
        list_all started_before_ended (snd (end_operation rows today now data usr))"
    using assms
    unfolding end_operation_def Let_def wf_db_def
    by (auto simp: update_row_def started_before_ended_def [of "_\<lparr>end_time := _, completed_by_user := _\<rparr>"]
        split: option.splits sum.splits if_splits intro!: list_all_update_first)
  with u show ?thesis
    by (simp add: wf_db_def)
qed

lemma wf_db_end_driver_operation:
  assumes "wf_db rows"
  shows "wf_db (snd (end_driver_operation rows today now data usr))"
proof -
  have u: "unique_operation (snd (end_driver_operation rows today now data usr))"
    using assms by (simp add: wf_db_def unique_operation_def end_driver_operation_keys)
  have "list_all row_constraints (snd (end_driver_operation rows today now data usr)) \<and>
        list_all started_before_ended (snd (end_driver_operation rows today now data usr))"
    using assms
    unfolding end_driver_operation_def Let_def wf_db_def
    by (auto simp: update_row_def
        started_before_ended_def [of "_\<lparr>end_time := _, completed_by_user := _,
          total_orders := _, on_time_deliveries := _\<rparr>"]
        split: option.splits sum.splits if_splits intro!: list_all_update_first)
  with u show ?thesis
    by (simp add: wf_db_def)
qed

lemma wf_db_initialize_batch:
  assumes "wf_db rows"
  shows "wf_db (snd (initialize_batch rows d b))"
proof -
  have p: "list_all started_before_ended (pending_roles rows d b)"
    by (simp add: pending_roles_def list_all_iff started_before_ended_new_operation)
  show ?thesis
    using assms p initialize_batch_unique [of rows d b]
      insert_all_constraints [of rows "pending_roles rows d b"]
      insert_all_list_all [of rows "pending_roles rows d b" _ started_before_ended]
    by (auto simp: wf_db_def initialize_batch_def split: sum.splits)
qed

subsection \<open>Batch status\<close>

lemma wf_db_empty: "wf_db []"
  by (simp add: wf_db_def unique_operation_def)

lemma batch_count_le_total:
  assumes "unique_operation rows" and "list_all valid_role rows"
  shows "length (filter (\<lambda>r. operation_date r = d \<and> batch r = b \<and> Q r) rows) \<le> TOTAL_ROLES"
proof -
  let ?xs = "filter (\<lambda>r. operation_date r = d \<and> batch r = b \<and> Q r) rows"
  have "distinct (map op_key ?xs)"
    using assms(1) by (simp add: unique_operation_def distinct_map_filter)
  moreover have "map op_key ?xs = map (\<lambda>r. (d, b, operation_role r)) ?xs"
    by (simp add: op_key_def)
  ultimately have "distinct (map (\<lambda>r. (d, b, operation_role r)) ?xs)"
    by simp
  then have "distinct (map operation_role ?xs)"
    by (simp add: distinct_map inj_on_def)
  then have "length ?xs = card (set (map operation_role ?xs))"
    using distinct_card [of "map operation_role ?xs"] by simp
  also have "set (map operation_role ?xs) \<subseteq> set ROLE_ORDER"
    using assms(2) by (auto simp: list_all_iff valid_role_def VALID_ROLES_def)
  then have "card (set (map operation_role ?xs)) \<le> card (set ROLE_ORDER)"
    by (simp add: card_mono)
  also have "\<dots> \<le> TOTAL_ROLES"
    by (simp add: TOTAL_ROLES_def card_length)
  finally show ?thesis .
qed

lemma completed_le_started:
  assumes "list_all started_before_ended rows"
  shows "length (filter (\<lambda>r. operation_date r = d \<and> batch r = b \<and> end_time r \<noteq> None) rows)
       \<le> length (filter (\<lambda>r. operation_date r = d \<and> batch r = b \<and> start_time r \<noteq> None) rows)"
  using assms
  by (induction rows) (auto simp: started_before_ended_def)

lemma round2_zero: "round2 0 = 0"
  by (simp add: round2_def)

text \<open>
  For the twelve possible completed counts the binary64 computation of the progress and
  the exactly computed rounding give the same value.
\<close>

lemma float_percentage_eleven:
  assumes "c \<le> 11"
  shows "float_percentage (int c) 11 = round2 (100 * of_nat c / 11)"
proof -
  have "\<forall>c \<in> set [0..<12]. float_percentage (int c) 11 = round2 (100 * of_nat c / 11)"
    by code_simp
  moreover have "c \<in> set [0..<12]"
    using assms by simp
  ultimately show ?thesis
    by blast
qed

text \<open>
  C2. On a well-formed table, the status of a batch is RED exactly when no record of the
  batch is started, GREEN when some record is started and the completed count is the
  number of roles, eleven, and YELLOW otherwise; the counts are those of the records of
  the date and batch with \<open>start_time\<close>, respectively \<open>end_time\<close>, set. The progress is
  \<open>round(100 * completed_count / 11, 2)\<close>, whatever the started count is, and it is 0
  when nothing is started.
\<close>

theorem batch_status_red_green_yellow:
  assumes "wf_db rows"
  shows "(batch_status (calculate_batch_status rows d b) = RED \<longleftrightarrow>
            started_count (calculate_batch_status rows d b) = 0) \<and>
         (started_count (calculate_batch_status rows d b) \<noteq> 0 \<and>
          completed_count (calculate_batch_status rows d b) = 11 \<longrightarrow>
            batch_status (calculate_batch_status rows d b) = GREEN) \<and>
         (started_count (calculate_batch_status rows d b) \<noteq> 0 \<and>
          completed_count (calculate_batch_status rows d b) \<noteq> 11 \<longrightarrow>
            batch_status (calculate_batch_status rows d b) = YELLOW) \<and>
         progress_percentage (calculate_batch_status rows d b) =
            round2 (100 * of_nat (completed_count (calculate_batch_status rows d b)) / 11) \<and>
         (started_count (calculate_batch_status rows d b) = 0 \<longrightarrow>
            progress_percentage (calculate_batch_status rows d b) = 0) \<and>
         total_roles (calculate_batch_status rows d b) = 11 \<and>
         started_count (calculate_batch_status rows d b) =
            length (filter (\<lambda>r. operation_date r = d \<and> batch r = b \<and> start_time r \<noteq> None) rows) \<and>
         completed_count (calculate_batch_status rows d b) =
            length (filter (\<lambda>r. operation_date r = d \<and> batch r = b \<and> end_time r \<noteq> None) rows)"
proof -
  let ?c = "length (filter (\<lambda>r. operation_date r = d \<and> batch r = b \<and> end_time r \<noteq> None) rows)"
  let ?s = "length (filter (\<lambda>r. operation_date r = d \<and> batch r = b \<and> start_time r \<noteq> None) rows)"
  have "list_all valid_role rows"
    using assms by (auto simp: wf_db_def list_all_iff row_constraints_def)
  then have le: "?c \<le> 11"
    using batch_count_le_total [of rows d b "\<lambda>r. end_time r \<noteq> None"] assms
    by (simp add: wf_db_def TOTAL_ROLES_11)
  have cs: "?c \<le> ?s"
    using assms completed_le_started by (simp add: wf_db_def)
  have prog: "progress_percentage (calculate_batch_status rows d b) =
      round2 (100 * of_nat ?c / 11)"
    using float_percentage_eleven [OF le]
    by (simp add: calculate_batch_status_def Let_def TOTAL_ROLES_11)
  have counts: "started_count (calculate_batch_status rows d b) = ?s"
    "completed_count (calculate_batch_status rows d b) = ?c"
    "total_roles (calculate_batch_status rows d b) = 11"
    by (simp_all add: calculate_batch_status_def Let_def TOTAL_ROLES_11)
  have st: "batch_status (calculate_batch_status rows d b) =
      (if ?s = 0 then RED else if 11 \<le> ?c then GREEN else YELLOW)"
    by (simp add: calculate_batch_status_def Let_def TOTAL_ROLES_11)
  show ?thesis
    unfolding counts prog st
    using le cs by (auto simp: round2_zero)
qed


theorem batch_status_red_green_yellow_witness:
  "wf_db [(new_operation tuesday ''A'' ''Procurement'')
            \<lparr>start_time := Some 100, started_by_user := Some ada\<rparr>] \<and>
   started_count (calculate_batch_status
     [(new_operation tuesday ''A'' ''Procurement'')
        \<lparr>start_time := Some 100, started_by_user := Some ada\<rparr>] tuesday ''A'') \<noteq> 0 \<and>
   completed_count (calculate_batch_status
     [(new_operation tuesday ''A'' ''Procurement'')
        \<lparr>start_time := Some 100, started_by_user := Some ada\<rparr>] tuesday ''A'') \<noteq> 11 \<and>
   batch_status (calculate_batch_status
     [(new_operation tuesday ''A'' ''Procurement'')
        \<lparr>start_time := Some 100, started_by_user := Some ada\<rparr>] tuesday ''A'') = YELLOW"
proof -
  let ?T = "[(new_operation tuesday ''A'' ''Procurement'')
            \<lparr>start_time := Some 100, started_by_user := Some ada\<rparr>]"
  have w: "wf_db ?T"
    by (simp add: wf_db_def unique_operation_def started_before_ended_def table_defs
        ALL_BATCHES_def tuesday_def)
  have c: "started_count (calculate_batch_status ?T tuesday ''A'') \<noteq> 0"
    "completed_count (calculate_batch_status ?T tuesday ''A'') \<noteq> 11"
    by (simp_all add: calculate_batch_status_def new_operation_def Let_def)
  from batch_status_red_green_yellow [OF w, of tuesday "''A''"]
  have "started_count (calculate_batch_status ?T tuesday ''A'') \<noteq> 0 \<and>
        completed_count (calculate_batch_status ?T tuesday ''A'') \<noteq> 11 \<longrightarrow>
        batch_status (calculate_batch_status ?T tuesday ''A'') = YELLOW"
    by blast
  with w c show ?thesis
    by blast
qed

subsection \<open>Previous-role warning\<close>

lemma get_previous_role_second: "get_previous_role ''Inventory QC - IN'' = Some ''Procurement''"
  by (simp add: get_previous_role_def get_role_index_def ROLE_ORDER_def)

lemma get_previous_role_first: "get_previous_role ''Procurement'' = None"
  by (simp add: get_previous_role_def get_role_index_def ROLE_ORDER_def)

text \<open>
  C4. The start of the second role on an empty table succeeds, and its response carries no
  warning, although the previous role, Procurement, has no record: the warning of
  \<open>start_operation\<close> is attached only when the previous role's record exists and is not
  completed.
\<close>

theorem start_attaches_no_warning_when_previous_absent:
  "get_previous_role ''Inventory QC - IN'' = Some ''Procurement'' \<and>
   get_operation [] tuesday ''A'' ''Procurement'' = None \<and>
   start_operation [] tuesday 100
     \<lparr>start_operation_date = tuesday, start_batch = ''A'',
      start_role = ''Inventory QC - IN''\<rparr> ada =
   ((True, OPERATION_STARTED,
     Some (OperationData
       ((new_operation tuesday ''A'' ''Inventory QC - IN'')
          \<lparr>start_time := Some 100, started_by_user := Some ada\<rparr>) None)),
    [(new_operation tuesday ''A'' ''Inventory QC - IN'')
       \<lparr>start_time := Some 100, started_by_user := Some ada\<rparr>])"
  by (simp add: start_operation_def start_warning_def get_previous_role_second
      calendar_defs table_defs Let_def)

lemma start_warning_iff:
  "start_warning rows d b role \<noteq> None \<longleftrightarrow>
     (\<exists>prev p. get_previous_role role = Some prev \<and> get_operation rows d b prev = Some p \<and>
        end_time p = None)"
  by (auto simp: start_warning_def split: option.splits)

lemma check_previous_role_show_warning_iff:
  "show_warning (check_previous_role rows d b role) \<longleftrightarrow>
     (\<exists>prev. get_previous_role role = Some prev \<and>
        (case get_operation rows d b prev of None \<Rightarrow> True | Some p \<Rightarrow> end_time p = None))"
  by (auto simp: check_previous_role_def Let_def split: option.splits)

lemma check_previous_role_first:
  "check_previous_role rows d b ''Procurement'' =
     \<lparr>current_role = ''Procurement'', previous_role = None, is_previous_completed = True,
      show_warning = False, warning_message = None\<rparr>"
  by (simp add: check_previous_role_def get_previous_role_first)

text \<open>
  C5. On the empty table \<open>check_previous_role\<close> asks for a warning before the second role
  is started, and the start of that role on the same table attaches none: the two verdicts
  differ when the previous role has no record.
\<close>

theorem check_previous_role_differs_from_start:
  "show_warning (check_previous_role [] tuesday ''A'' ''Inventory QC - IN'') \<and>
   \<not> is_previous_completed (check_previous_role [] tuesday ''A'' ''Inventory QC - IN'') \<and>
   snd (snd (fst (start_operation [] tuesday 100
     \<lparr>start_operation_date = tuesday, start_batch = ''A'',
      start_role = ''Inventory QC - IN''\<rparr> ada))) =
     Some (OperationData
       ((new_operation tuesday ''A'' ''Inventory QC - IN'')
          \<lparr>start_time := Some 100, started_by_user := Some ada\<rparr>) None)"
  by (simp add: start_operation_def start_warning_def get_previous_role_second
      check_previous_role_def calendar_defs table_defs Let_def)

text \<open>
  Where the previous role has a record, or the role is the first one, the two verdicts are
  the same.
\<close>

lemma check_previous_role_agrees_when_record_exists:
  assumes "get_previous_role role = None \<or>
           (\<exists>prev p. get_previous_role role = Some prev \<and>
              get_operation rows d b prev = Some p)"
  shows "show_warning (check_previous_role rows d b role) \<longleftrightarrow>
         start_warning rows d b role \<noteq> None"
  using assms
  by (auto simp: check_previous_role_def start_warning_def Let_def split: option.splits)

subsection \<open>Past dates are read-only\<close>

lemma monday_is_past_on_tuesday: "is_past_date tuesday monday"
  by (simp add: calendar_defs)

text \<open>
  C7, as the claim states it, fails: Monday 15 January 2024 is in the past on Tuesday 16,
  batch D is not offered on a Monday, and a start for it is answered with
  BATCH_NOT_AVAILABLE, not READONLY_DATE.
\<close>

theorem start_on_past_date_not_read_only:
  "is_past_date tuesday monday \<and>
   fst (snd (fst (start_operation [] tuesday 100
     \<lparr>start_operation_date = monday, start_batch = ''D'', start_role = ''Procurement''\<rparr> ada)))
     \<noteq> READONLY_DATE"
  by (simp add: start_operation_def calendar_defs Let_def)

text \<open>
  C7, amended. For a date strictly before the current server date, \<open>end_operation\<close> and
  \<open>end_driver_operation\<close> return READONLY_DATE, and so does \<open>start_operation\<close> when the
  batch is offered on that date; a start for a batch that is not offered returns
  BATCH_NOT_AVAILABLE. None of these calls changes the table.
\<close>

theorem past_date_rejected_without_write:
  assumes "is_past_date today d"
  shows "start_operation rows today now
           \<lparr>start_operation_date = d, start_batch = b, start_role = role\<rparr> usr =
           ((False,
             (if b \<in> set (get_available_batches_for_date d)
              then READONLY_DATE else BATCH_NOT_AVAILABLE), None), rows) \<and>
         end_operation rows today now
           \<lparr>end_operation_date = d, end_batch = b, end_role = role\<rparr> usr =
           ((False, READONLY_DATE, None), rows) \<and>
         end_driver_operation rows today now
           \<lparr>driver_operation_date = d, driver_batch = b, driver_total_orders = n,
            driver_on_time_deliveries = k\<rparr> usr =
           ((False, READONLY_DATE, None), rows)"
  using assms
  by (simp add: start_operation_def end_operation_def end_driver_operation_def Let_def)

theorem past_date_rejected_without_write_witness:
  "is_past_date tuesday monday \<and>
   start_operation [] tuesday 100
     \<lparr>start_operation_date = monday, start_batch = ''A'', start_role = ''Procurement''\<rparr> ada =
     ((False, READONLY_DATE, None), []) \<and>
   end_operation [] tuesday 100
     \<lparr>end_operation_date = monday, end_batch = ''A'', end_role = ''Procurement''\<rparr> ada =
     ((False, READONLY_DATE, None), [])"
  using past_date_rejected_without_write
    [OF monday_is_past_on_tuesday, of "[]" 100 "''A''" "''Procurement''" ada]
    monday_is_past_on_tuesday
  by (simp add: calendar_defs)

subsection \<open>Failure kinds of a completion\<close>

lemma end_operation_failure_no_write:
  "\<not> fst (fst (end_operation rows today now data usr))
     \<Longrightarrow> snd (end_operation rows today now data usr) = rows"
  by (auto simp: end_operation_def Let_def split: option.splits sum.splits if_splits)

lemma end_driver_operation_failure_no_write:
  "\<not> fst (fst (end_driver_operation rows today now data usr))
     \<Longrightarrow> snd (end_driver_operation rows today now data usr) = rows"
  by (auto simp: end_driver_operation_def Let_def split: option.splits sum.splits if_splits)

lemma end_operation_successE:
  assumes "end_operation rows today now data usr = ((True, m, x), rows')"
  obtains operation where
    "get_operation rows (end_operation_date data) (end_batch data) (end_role data)
       = Some operation"
    "update_row rows (matches (end_operation_date data) (end_batch data) (end_role data))
       (operation\<lparr>end_time := Some now, completed_by_user := Some usr\<rparr>) = Inr rows'"
    "\<not> is_past_date today (end_operation_date data)"
  using assms unfolding end_operation_def Let_def
  by (auto split: if_splits sum.splits option.splits)

lemma end_operation_success_get:
  assumes "end_operation rows today now data usr = ((True, m, x), rows')"
  shows "\<exists>operation. get_operation rows' (end_operation_date data) (end_batch data) (end_role data)
           = Some operation \<and> end_time operation = Some now \<and>
           completed_by_user operation = Some usr"
proof -
  let ?d = "end_operation_date data" and ?b = "end_batch data" and ?r = "end_role data"
  from assms obtain operation where
    g: "get_operation rows ?d ?b ?r = Some operation" and
    up: "update_row rows (matches ?d ?b ?r)
           (operation\<lparr>end_time := Some now, completed_by_user := Some usr\<rparr>) = Inr rows'"
    by (rule end_operation_successE)
  have "matches ?d ?b ?r (operation\<lparr>end_time := Some now, completed_by_user := Some usr\<rparr>)"
    using get_operation_SomeD [OF g] by (simp add: matches_def)
  then have "get_operation rows' ?d ?b ?r
      = Some (operation\<lparr>end_time := Some now, completed_by_user := Some usr\<rparr>)"
    using get_operation_update_row [OF up g] by simp
  then show ?thesis by simp
qed

text \<open>
  C6. On a date that is not read-only and a well-formed table, \<open>end_operation\<close> fails
  with OPERATION_NOT_STARTED when the record is missing or its \<open>start_time\<close> is not set, and
  with the different OPERATION_ALREADY_COMPLETED when its \<open>end_time\<close> is set. After a
  successful completion the record carries the end time and the user of that call, every
  further completion on the same day fails with OPERATION_ALREADY_COMPLETED and leaves the
  table, hence those two values, as they were. No failing completion changes the table.
\<close>

theorem end_operation_failure_kinds:
  assumes "\<not> is_past_date today (end_operation_date data)" and "wf_db rows"
  shows "(get_operation rows (end_operation_date data) (end_batch data) (end_role data) = None
            \<longrightarrow> end_operation rows today now data usr =
                  ((False, OPERATION_NOT_STARTED, None), rows)) \<and>
         (\<forall>operation.
            get_operation rows (end_operation_date data) (end_batch data) (end_role data)
              = Some operation \<and> start_time operation = None
            \<longrightarrow> end_operation rows today now data usr =
                  ((False, OPERATION_NOT_STARTED, None), rows)) \<and>
         (\<forall>operation.
            get_operation rows (end_operation_date data) (end_batch data) (end_role data)
              = Some operation \<and> end_time operation \<noteq> None
            \<longrightarrow> end_operation rows today now data usr =
                  ((False, OPERATION_ALREADY_COMPLETED, None), rows)) \<and>
         OPERATION_NOT_STARTED \<noteq> OPERATION_ALREADY_COMPLETED \<and>
         (\<forall>m x rows'. end_operation rows today now data usr = ((True, m, x), rows') \<longrightarrow>
            (\<exists>operation.
               get_operation rows' (end_operation_date data) (end_batch data) (end_role data)
                 = Some operation \<and> end_time operation = Some now \<and>
               completed_by_user operation = Some usr) \<and>
            (\<forall>now' usr'. end_operation rows' today now' data usr' =
               ((False, OPERATION_ALREADY_COMPLETED, None), rows'))) \<and>
         (\<not> fst (fst (end_operation rows today now data usr))
            \<longrightarrow> snd (end_operation rows today now data usr) = rows)"
proof -
  let ?d = "end_operation_date data" and ?b = "end_batch data" and ?r = "end_role data"
  have missing: "get_operation rows ?d ?b ?r = None
      \<longrightarrow> end_operation rows today now data usr = ((False, OPERATION_NOT_STARTED, None), rows)"
    using assms(1) by (simp add: end_operation_def)
  have unstarted: "end_operation rows today now data usr =
      ((False, OPERATION_NOT_STARTED, None), rows)"
    if g: "get_operation rows ?d ?b ?r = Some operation" and s: "start_time operation = None"
    for operation
  proof -
    have "operation \<in> set rows"
      using get_operation_SomeD [OF g] by simp
    then have "started_before_ended operation"
      using assms(2) by (simp add: wf_db_def list_all_iff)
    with s have "end_time operation = None"
      by (auto simp: started_before_ended_def)
    with g s assms(1) show ?thesis
      by (simp add: end_operation_def)
  qed
  have completed: "end_operation rows today now data usr =
      ((False, OPERATION_ALREADY_COMPLETED, None), rows)"
    if "get_operation rows ?d ?b ?r = Some operation" and "end_time operation \<noteq> None"
    for operation
    using that assms(1) by (auto simp: end_operation_def)
  have twice: "(\<exists>operation. get_operation rows' ?d ?b ?r = Some operation \<and>
        end_time operation = Some now \<and> completed_by_user operation = Some usr) \<and>
      (\<forall>now' usr'. end_operation rows' today now' data usr' =
         ((False, OPERATION_ALREADY_COMPLETED, None), rows'))"
    if ok: "end_operation rows today now data usr = ((True, m, x), rows')" for m x rows'
  proof -
    from end_operation_success_get [OF ok] obtain operation where
      g: "get_operation rows' ?d ?b ?r = Some operation" and e: "end_time operation = Some now"
      and c: "completed_by_user operation = Some usr"
      by blast
    have "end_operation rows' today now' data usr' =
        ((False, OPERATION_ALREADY_COMPLETED, None), rows')" for now' usr'
      using g e assms(1) by (simp add: end_operation_def)
    with g e c show ?thesis by blast
  qed
  show ?thesis
    using missing unstarted completed twice end_operation_failure_no_write
    by (intro conjI) blast+
qed

lemma end_on_started_table:
  "end_operation
     [(new_operation tuesday ''A'' ''Procurement'')
        \<lparr>start_time := Some 100, started_by_user := Some ada\<rparr>]
     tuesday 200
     \<lparr>end_operation_date = tuesday, end_batch = ''A'', end_role = ''Procurement''\<rparr> ben =
   ((True, OPERATION_COMPLETED,
     Some (OperationData
       ((new_operation tuesday ''A'' ''Procurement'')
          \<lparr>start_time := Some 100, started_by_user := Some ada,
           end_time := Some 200, completed_by_user := Some ben\<rparr>) None)),
    [(new_operation tuesday ''A'' ''Procurement'')
       \<lparr>start_time := Some 100, started_by_user := Some ada,
        end_time := Some 200, completed_by_user := Some ben\<rparr>])"
  by (simp add: end_operation_def calendar_defs table_defs Let_def)

lemma wf_db_started_table:
  "wf_db [(new_operation tuesday ''A'' ''Procurement'')
            \<lparr>start_time := Some 100, started_by_user := Some ada\<rparr>]"
  by (simp add: wf_db_def unique_operation_def started_before_ended_def table_defs
      ALL_BATCHES_def tuesday_def)

theorem end_operation_failure_kinds_witness:
  "\<not> is_past_date tuesday tuesday \<and>
   wf_db [(new_operation tuesday ''A'' ''Procurement'')
            \<lparr>start_time := Some 100, started_by_user := Some ada\<rparr>] \<and>
   end_operation
     [(new_operation tuesday ''A'' ''Procurement'')
        \<lparr>start_time := Some 100, started_by_user := Some ada,
         end_time := Some 200, completed_by_user := Some ben\<rparr>]
     tuesday 300
     \<lparr>end_operation_date = tuesday, end_batch = ''A'', end_role = ''Procurement''\<rparr> ada =
   ((False, OPERATION_ALREADY_COMPLETED, None),
    [(new_operation tuesday ''A'' ''Procurement'')
       \<lparr>start_time := Some 100, started_by_user := Some ada,
        end_time := Some 200, completed_by_user := Some ben\<rparr>])"
proof -
  have p: "\<not> is_past_date tuesday
      (end_operation_date
         \<lparr>end_operation_date = tuesday, end_batch = ''A'', end_role = ''Procurement''\<rparr>)"
    by (simp add: calendar_defs)
  from end_operation_failure_kinds [OF p wf_db_started_table, of 200 ben] end_on_started_table
  have "end_operation
     [(new_operation tuesday ''A'' ''Procurement'')
        \<lparr>start_time := Some 100, started_by_user := Some ada,
         end_time := Some 200, completed_by_user := Some ben\<rparr>]
     tuesday 300
     \<lparr>end_operation_date = tuesday, end_batch = ''A'', end_role = ''Procurement''\<rparr> ada =
   ((False, OPERATION_ALREADY_COMPLETED, None),
    [(new_operation tuesday ''A'' ''Procurement'')
       \<lparr>start_time := Some 100, started_by_user := Some ada,
        end_time := Some 200, completed_by_user := Some ben\<rparr>])"
    by blast
  with p wf_db_started_table show ?thesis
    by simp
qed

subsection \<open>Driver completion: on-time percentage and order counts\<close>

lemma float_percentage_142_of_150: "float_percentage 142 150 = 9467 / 100"
  by code_simp

lemma float_percentage_23_of_160: "float_percentage 23 160 = 1437 / 100"
  by code_simp

lemma round2_23_of_160: "round2 (100 * 23 / 160) = 1438 / 100"
  by code_simp

lemma validate_DriverEnd_bounds:
  assumes "validate_DriverEnd raw = Inr data"
  shows "0 \<le> driver_on_time_deliveries data \<and>
         driver_on_time_deliveries data \<le> driver_total_orders data \<and>
         driver_total_orders data = driver_total_orders raw \<and>
         driver_on_time_deliveries data = driver_on_time_deliveries raw"
  using assms
  by (auto simp: validate_DriverEnd_def validate_order_counts_def
      split: sum.splits if_splits)

lemma validate_DriverEnd_exceeding:
  assumes "driver_on_time_deliveries raw > driver_total_orders raw"
  shows "validate_DriverEnd raw = Inl VALIDATION"
proof (cases "validate_batch (driver_batch raw)")
  case (Inl e)
  then show ?thesis
    by (cases e) (simp add: validate_DriverEnd_def)
next
  case (Inr b)
  with assms show ?thesis
    by (simp add: validate_DriverEnd_def validate_order_counts_def)
qed

lemma end_driver_operation_exceeding_no_write:
  assumes "driver_on_time_deliveries data > driver_total_orders data"
  shows "\<not> fst (fst (end_driver_operation rows today now data usr)) \<and>
         snd (end_driver_operation rows today now data usr) = rows"
  using assms
  by (auto simp: end_driver_operation_def Let_def update_row_def row_constraints_def
      on_time_not_exceed_total_def split: option.splits)

lemma end_driver_operation_success_stored:
  assumes "fst (fst (end_driver_operation rows today now data usr))"
  shows "\<exists>operation w.
           get_operation (snd (end_driver_operation rows today now data usr))
             (driver_operation_date data) (driver_batch data) DRIVER_ROLE = Some operation \<and>
           snd (snd (fst (end_driver_operation rows today now data usr)))
             = Some (OperationData operation w) \<and>
           total_orders operation = Some (driver_total_orders data) \<and>
           on_time_deliveries operation = Some (driver_on_time_deliveries data) \<and>
           end_time operation = Some now \<and> completed_by_user operation = Some usr"
proof -
  let ?d = "driver_operation_date data" and ?b = "driver_batch data"
  from assms obtain operation where
    g: "get_operation rows ?d ?b DRIVER_ROLE = Some operation"
    unfolding end_driver_operation_def Let_def
    by (auto split: if_splits option.splits)
  let ?op = "operation\<lparr>end_time := Some now, completed_by_user := Some usr,
      total_orders := Some (driver_total_orders data),
      on_time_deliveries := Some (driver_on_time_deliveries data)\<rparr>"
  from assms g obtain rows' where
    up: "update_row rows (matches ?d ?b DRIVER_ROLE) ?op = Inr rows'"
    unfolding end_driver_operation_def Let_def
    by (auto split: if_splits sum.splits)
  with assms g have res: "snd (end_driver_operation rows today now data usr) = rows'"
    "\<exists>w. snd (snd (fst (end_driver_operation rows today now data usr)))
       = Some (OperationData ?op w)"
    unfolding end_driver_operation_def Let_def
    by (auto split: if_splits)
  have "matches ?d ?b DRIVER_ROLE ?op"
    using get_operation_SomeD [OF g] by (simp add: matches_def)
  then have "get_operation rows' ?d ?b DRIVER_ROLE = Some ?op"
    using get_operation_update_row [OF up g] by simp
  with res show ?thesis
    by auto
qed


lemma end_driver_operation_out_of_range_no_write:
  assumes "\<not> in_integer_range (driver_total_orders data) \<or>
           \<not> in_integer_range (driver_on_time_deliveries data)"
  shows "\<not> fst (fst (end_driver_operation rows today now data usr)) \<and>
         snd (end_driver_operation rows today now data usr) = rows"
  using assms
  by (auto simp: end_driver_operation_def Let_def split: option.splits)

lemma end_driver_on_started_table_negative:
  "end_driver_operation
     [(new_operation tuesday ''A'' ''Driver'')
        \<lparr>start_time := Some 100, started_by_user := Some ada\<rparr>]
     tuesday 200
     \<lparr>driver_operation_date = tuesday, driver_batch = ''A'', driver_total_orders = 10,
      driver_on_time_deliveries = - 1\<rparr> ben =
   ((True, OPERATION_COMPLETED,
     Some (OperationData
       ((new_operation tuesday ''A'' ''Driver'')
          \<lparr>start_time := Some 100, started_by_user := Some ada, end_time := Some 200,
           completed_by_user := Some ben, total_orders := Some 10,
           on_time_deliveries := Some (- 1)\<rparr>)
       (Some (''Roles not completed: '' @
          join_comma (get_incomplete_roles
            [(new_operation tuesday ''A'' ''Driver'')
               \<lparr>start_time := Some 100, started_by_user := Some ada\<rparr>]
            tuesday ''A'' DRIVER_ROLE))))),
    [(new_operation tuesday ''A'' ''Driver'')
       \<lparr>start_time := Some 100, started_by_user := Some ada, end_time := Some 200,
        completed_by_user := Some ben, total_orders := Some 10,
        on_time_deliveries := Some (- 1)\<rparr>])"
  by (simp add: end_driver_operation_def get_incomplete_roles_def DRIVER_ROLE_def
      in_integer_range_def calendar_defs table_defs Let_def)

lemma end_driver_on_started_table_succeeds:
  "fst (fst (end_driver_operation
     [(new_operation tuesday ''A'' ''Driver'')
        \<lparr>start_time := Some 100, started_by_user := Some ada\<rparr>]
     tuesday 200
     \<lparr>driver_operation_date = tuesday, driver_batch = ''A'', driver_total_orders = 150,
      driver_on_time_deliveries = 142\<rparr> ben))"
  by (simp add: end_driver_operation_def get_incomplete_roles_def DRIVER_ROLE_def
      in_integer_range_def calendar_defs table_defs Let_def)

text \<open>
  C8, as the claim states it, fails in two places. The percentage is computed in binary
  floating point: for 23 on-time deliveries of 160 orders the record reports 14.37, while
  \<open>round(100 * 23 / 160, 2)\<close>, computed exactly, is 14.38. And the service does not check
  the bound \<open>0 \<le> on_time_deliveries\<close> again: called with 10 orders and -1 on-time
  deliveries on a started Driver record it succeeds and stores -1.
\<close>

theorem driver_percentage_formula_and_service_bound_fail:
  "on_time_percentage ((new_operation tuesday ''A'' ''Driver'')
      \<lparr>total_orders := Some 160, on_time_deliveries := Some 23\<rparr>) = Some (1437 / 100) \<and>
   round2 (100 * 23 / 160) = 1438 / 100 \<and>
   fst (fst (end_driver_operation
     [(new_operation tuesday ''A'' ''Driver'')
        \<lparr>start_time := Some 100, started_by_user := Some ada\<rparr>]
     tuesday 200
     \<lparr>driver_operation_date = tuesday, driver_batch = ''A'', driver_total_orders = 10,
      driver_on_time_deliveries = - 1\<rparr> ben)) \<and>
   map on_time_deliveries (snd (end_driver_operation
     [(new_operation tuesday ''A'' ''Driver'')
        \<lparr>start_time := Some 100, started_by_user := Some ada\<rparr>]
     tuesday 200
     \<lparr>driver_operation_date = tuesday, driver_batch = ''A'', driver_total_orders = 10,
      driver_on_time_deliveries = - 1\<rparr> ben)) = [Some (- 1)]"
proof -
  have p: "on_time_percentage ((new_operation tuesday ''A'' ''Driver'')
      \<lparr>total_orders := Some 160, on_time_deliveries := Some 23\<rparr>) = Some (1437 / 100)"
    by (simp add: on_time_percentage_def float_percentage_23_of_160)
  show ?thesis
    unfolding end_driver_on_started_table_negative
    using p round2_23_of_160 by simp
qed

text \<open>
  C8, amended. A record with \<open>total_orders = 150\<close> and \<open>on_time_deliveries = 142\<close> has the
  on-time percentage 94.67. Whenever \<open>total_orders\<close> is positive and \<open>on_time_deliveries\<close> is
  set, the percentage is \<open>round((on_time_deliveries / total_orders) * 100, 2)\<close> evaluated in
  binary64 floating point; it is absent when \<open>total_orders\<close> is unset, zero or negative, or
  \<open>on_time_deliveries\<close> is unset. A successful \<open>end_driver_operation\<close> stores the two
  counts of its request, the end time and the user in the Driver record and returns that
  record, whose percentage is then the one of the stored counts, 94.67 for 142 of 150.
  A completion request with 151 on-time deliveries of 150 orders is rejected by the
  request schema as a validation error, the service is not called and the table is
  unchanged; a request the schema passes has \<open>0 \<le> on_time_deliveries \<le> total_orders\<close>.
  The service itself does not test the bound; behind the schema, a call with more on-time
  deliveries than orders fails and writes nothing, the table constraint refusing the row.
\<close>

theorem driver_completion_percentage_and_bounds:
  "on_time_percentage (r\<lparr>total_orders := Some 150, on_time_deliveries := Some 142\<rparr>)
     = Some (9467 / 100) \<and>
   (\<forall>t a. total_orders r = Some t \<and> 0 < t \<and> on_time_deliveries r = Some a \<longrightarrow>
      on_time_percentage r = Some (py_round2 (float_mul (float_div a t) 100))) \<and>
   (total_orders r = None \<or> (\<exists>t. total_orders r = Some t \<and> t \<le> 0) \<or>
    on_time_deliveries r = None \<longrightarrow> on_time_percentage r = None) \<and>
   (fst (fst (end_driver_operation rows today now data usr)) \<longrightarrow>
      (\<exists>operation w.
         get_operation (snd (end_driver_operation rows today now data usr))
           (driver_operation_date data) (driver_batch data) DRIVER_ROLE = Some operation \<and>
         snd (snd (fst (end_driver_operation rows today now data usr)))
           = Some (OperationData operation w) \<and>
         total_orders operation = Some (driver_total_orders data) \<and>
         on_time_deliveries operation = Some (driver_on_time_deliveries data) \<and>
         end_time operation = Some now \<and> completed_by_user operation = Some usr \<and>
         (0 < driver_total_orders data \<longrightarrow>
            on_time_percentage operation =
              Some (float_percentage (driver_on_time_deliveries data)
                      (driver_total_orders data))) \<and>
         (driver_total_orders data = 150 \<and> driver_on_time_deliveries data = 142 \<longrightarrow>
            on_time_percentage operation = Some (9467 / 100)))) \<and>
   validate_DriverEnd
     (raw\<lparr>driver_total_orders := 150, driver_on_time_deliveries := 151\<rparr>) = Inl VALIDATION \<and>
   end_driver_route rows today now
     (raw\<lparr>driver_total_orders := 150, driver_on_time_deliveries := 151\<rparr>) usr
     = (Inl VALIDATION, rows) \<and>
   (\<forall>data'. validate_DriverEnd raw = Inr data' \<longrightarrow>
      0 \<le> driver_on_time_deliveries data' \<and>
      driver_on_time_deliveries data' \<le> driver_total_orders data') \<and>
   (driver_total_orders raw < driver_on_time_deliveries raw \<longrightarrow>
      \<not> fst (fst (end_driver_operation rows today now raw usr)) \<and>
      snd (end_driver_operation rows today now raw usr) = rows)"
proof -
  have v: "validate_DriverEnd
     (raw\<lparr>driver_total_orders := 150, driver_on_time_deliveries := 151\<rparr>) = Inl VALIDATION"
    by (rule validate_DriverEnd_exceeding) simp
  have p1: "on_time_percentage (r\<lparr>total_orders := Some 150, on_time_deliveries := Some 142\<rparr>)
     = Some (9467 / 100)"
    by (simp add: on_time_percentage_def float_percentage_142_of_150)
  have p2: "\<forall>t a. total_orders r = Some t \<and> 0 < t \<and> on_time_deliveries r = Some a \<longrightarrow>
      on_time_percentage r = Some (py_round2 (float_mul (float_div a t) 100))"
    by (simp add: on_time_percentage_def float_percentage_def)
  have p3: "total_orders r = None \<or> (\<exists>t. total_orders r = Some t \<and> t \<le> 0) \<or>
    on_time_deliveries r = None \<longrightarrow> on_time_percentage r = None"
    by (auto simp: on_time_percentage_def split: option.splits)
  have stored: "\<exists>operation w.
         get_operation (snd (end_driver_operation rows today now data usr))
           (driver_operation_date data) (driver_batch data) DRIVER_ROLE = Some operation \<and>
         snd (snd (fst (end_driver_operation rows today now data usr)))
           = Some (OperationData operation w) \<and>
         total_orders operation = Some (driver_total_orders data) \<and>
         on_time_deliveries operation = Some (driver_on_time_deliveries data) \<and>
         end_time operation = Some now \<and> completed_by_user operation = Some usr \<and>
         (0 < driver_total_orders data \<longrightarrow>
            on_time_percentage operation =
              Some (float_percentage (driver_on_time_deliveries data)
                      (driver_total_orders data))) \<and>
         (driver_total_orders data = 150 \<and> driver_on_time_deliveries data = 142 \<longrightarrow>
            on_time_percentage operation = Some (9467 / 100))"
    if ok: "fst (fst (end_driver_operation rows today now data usr))"
  proof -
    from end_driver_operation_success_stored [OF ok] obtain operation w where
      g: "get_operation (snd (end_driver_operation rows today now data usr))
           (driver_operation_date data) (driver_batch data) DRIVER_ROLE = Some operation"
      and x: "snd (snd (fst (end_driver_operation rows today now data usr)))
           = Some (OperationData operation w)"
      and t: "total_orders operation = Some (driver_total_orders data)"
      and a: "on_time_deliveries operation = Some (driver_on_time_deliveries data)"
      and e: "end_time operation = Some now" and c: "completed_by_user operation = Some usr"
      by blast
    have "0 < driver_total_orders data \<longrightarrow>
            on_time_percentage operation =
              Some (float_percentage (driver_on_time_deliveries data)
                      (driver_total_orders data))"
      using t a by (simp add: on_time_percentage_def)
    moreover have "driver_total_orders data = 150 \<and> driver_on_time_deliveries data = 142 \<longrightarrow>
            on_time_percentage operation = Some (9467 / 100)"
      using t a by (simp add: on_time_percentage_def float_percentage_142_of_150)
    ultimately show ?thesis
      using g x t a e c by blast
  qed
  have route: "end_driver_route rows today now
     (raw\<lparr>driver_total_orders := 150, driver_on_time_deliveries := 151\<rparr>) usr
     = (Inl VALIDATION, rows)"
    by (simp add: end_driver_route_def v)
  show ?thesis
    using p1 p2 p3 stored v route validate_DriverEnd_bounds [of raw]
      end_driver_operation_exceeding_no_write [of raw]
    by (intro conjI) blast+
qed

theorem driver_completion_percentage_and_bounds_witness:
  "fst (fst (end_driver_operation
     [(new_operation tuesday ''A'' ''Driver'')
        \<lparr>start_time := Some 100, started_by_user := Some ada\<rparr>]
     tuesday 200
     \<lparr>driver_operation_date = tuesday, driver_batch = ''A'', driver_total_orders = 150,
      driver_on_time_deliveries = 142\<rparr> ben)) \<and>
   (\<exists>operation.
      get_operation (snd (end_driver_operation
         [(new_operation tuesday ''A'' ''Driver'')
            \<lparr>start_time := Some 100, started_by_user := Some ada\<rparr>]
         tuesday 200
         \<lparr>driver_operation_date = tuesday, driver_batch = ''A'', driver_total_orders = 150,
          driver_on_time_deliveries = 142\<rparr> ben)) tuesday ''A'' ''Driver'' = Some operation \<and>
      total_orders operation = Some 150 \<and> on_time_deliveries operation = Some 142 \<and>
      on_time_percentage operation = Some (9467 / 100)) \<and>
   validate_DriverEnd
     \<lparr>driver_operation_date = tuesday, driver_batch = ''a'', driver_total_orders = 150,
      driver_on_time_deliveries = 142\<rparr> =
   Inr \<lparr>driver_operation_date = tuesday, driver_batch = ''A'', driver_total_orders = 150,
      driver_on_time_deliveries = 142\<rparr>"
proof -
  have v: "validate_DriverEnd
     \<lparr>driver_operation_date = tuesday, driver_batch = ''a'', driver_total_orders = 150,
      driver_on_time_deliveries = 142\<rparr> =
   Inr \<lparr>driver_operation_date = tuesday, driver_batch = ''A'', driver_total_orders = 150,
      driver_on_time_deliveries = 142\<rparr>"
    by (simp add: validate_DriverEnd_def validate_batch_def validate_order_counts_def
        upper_char_def VALID_BATCHES_def ALL_BATCHES_def Let_def)
  let ?T = "[(new_operation tuesday ''A'' ''Driver'')
        \<lparr>start_time := Some 100, started_by_user := Some ada\<rparr>]"
  let ?D = "\<lparr>driver_operation_date = tuesday, driver_batch = ''A'', driver_total_orders = 150,
      driver_on_time_deliveries = 142\<rparr>"
  from driver_completion_percentage_and_bounds
    [where rows = ?T and today = tuesday and now = 200 and data = ?D and usr = ben
       and r = "new_operation tuesday ''A'' ''Driver''" and raw = ?D]
  have "fst (fst (end_driver_operation ?T tuesday 200 ?D ben)) \<longrightarrow>
      (\<exists>operation w.
         get_operation (snd (end_driver_operation ?T tuesday 200 ?D ben))
           (driver_operation_date ?D) (driver_batch ?D) DRIVER_ROLE = Some operation \<and>
         snd (snd (fst (end_driver_operation ?T tuesday 200 ?D ben)))
           = Some (OperationData operation w) \<and>
         total_orders operation = Some (driver_total_orders ?D) \<and>
         on_time_deliveries operation = Some (driver_on_time_deliveries ?D) \<and>
         end_time operation = Some 200 \<and> completed_by_user operation = Some ben \<and>
         (0 < driver_total_orders ?D \<longrightarrow>
            on_time_percentage operation =
              Some (float_percentage (driver_on_time_deliveries ?D)
                      (driver_total_orders ?D))) \<and>
         (driver_total_orders ?D = 150 \<and> driver_on_time_deliveries ?D = 142 \<longrightarrow>
            on_time_percentage operation = Some (9467 / 100)))"
    by (elim conjE)
  with end_driver_on_started_table_succeeds obtain operation where
    "get_operation (snd (end_driver_operation ?T tuesday 200 ?D ben))
           (driver_operation_date ?D) (driver_batch ?D) DRIVER_ROLE = Some operation"
    "total_orders operation = Some (driver_total_orders ?D)"
    "on_time_deliveries operation = Some (driver_on_time_deliveries ?D)"
    "driver_total_orders ?D = 150 \<and> driver_on_time_deliveries ?D = 142 \<longrightarrow>
            on_time_percentage operation = Some (9467 / 100)"
    by blast
  then have "\<exists>operation.
      get_operation (snd (end_driver_operation ?T tuesday 200 ?D ben))
        tuesday ''A'' ''Driver'' = Some operation \<and>
      total_orders operation = Some 150 \<and> on_time_deliveries operation = Some 142 \<and>
      on_time_percentage operation = Some (9467 / 100)"
    by (auto simp: DRIVER_ROLE_def)
  with v end_driver_on_started_table_succeeds show ?thesis
    by blast
qed

subsection \<open>Initialising a batch\<close>

lemma find_append_cases:
  "find P (xs @ ys) = (case find P xs of None \<Rightarrow> find P ys | Some x \<Rightarrow> Some x)"
  by (induction xs) auto

lemma insert_all_append:
  assumes "list_all row_constraints rs" and "distinct (map op_key rs)"
      and "set (map op_key rs) \<inter> set (map op_key rows) = {}"
  shows "insert_all rows rs = Inr (rows @ rs)"
  using assms
proof (induction rs arbitrary: rows)
  case Nil
  then show ?case by simp
next
  case (Cons r rs)
  from Cons.prems have ins: "insert_row rows r = Inr (rows @ [r])"
    by (auto simp: insert_row_def)
  from Cons.prems have "insert_all (rows @ [r]) rs = Inr ((rows @ [r]) @ rs)"
    by (intro Cons.IH) auto
  with ins show ?case by simp
qed

lemma new_operation_row_constraints:
  assumes "b \<in> VALID_BATCHES" and "role \<in> VALID_ROLES"
      and "2024 \<le> year d" and "year d \<le> 2100"
  shows "row_constraints (new_operation d b role)"
  using assms
  by (simp add: row_constraints_def valid_batch_def valid_role_def end_after_start_def
      valid_year_def driver_orders_valid_def on_time_not_exceed_total_def new_operation_def)

lemma is_batch_available_valid: "is_batch_available d b \<Longrightarrow> b \<in> VALID_BATCHES"
  by (auto simp: is_batch_available_def get_available_batches_for_date_def Let_def
      RESTRICTED_BATCHES_def ALL_BATCHES_def VALID_BATCHES_def split: if_splits)

lemma op_key_new_operation: "op_key (new_operation d b role) = (d, b, role)"
  by (simp add: op_key_def new_operation_def)

lemma find_new_operations:
  "find (matches d b role) (map (new_operation d b) roles) =
     (if role \<in> set roles then Some (new_operation d b role) else None)"
  by (induction roles) (auto simp: matches_def new_operation_def)

lemma initialize_batch_result:
  assumes "is_batch_available d b" and "2024 \<le> year d" and "year d \<le> 2100"
  shows "initialize_batch rows d b = (True, rows @ pending_roles rows d b)"
proof -
  let ?roles = "filter (\<lambda>role. get_operation rows d b role = None) ROLE_ORDER"
  have c: "list_all row_constraints (pending_roles rows d b)"
    using assms is_batch_available_valid [OF assms(1)]
    by (auto simp: pending_roles_def list_all_iff VALID_ROLES_def
        intro!: new_operation_row_constraints)
  have keys: "map op_key (pending_roles rows d b) = map (\<lambda>role. (d, b, role)) ?roles"
    by (simp add: pending_roles_def op_key_new_operation)
  have "distinct ?roles"
    using ROLE_ORDER_distinct by simp
  then have d: "distinct (map op_key (pending_roles rows d b))"
    unfolding keys by (simp add: distinct_map inj_on_def)
  have i: "set (map op_key (pending_roles rows d b)) \<inter> set (map op_key rows) = {}"
    unfolding keys using get_operation_None_iff [of rows d b] by auto
  show ?thesis
    using assms(1) insert_all_append [OF c d i] by (simp add: initialize_batch_def)
qed

lemma get_operation_after_initialize:
  "get_operation (rows @ pending_roles rows d b) d b role =
     (case get_operation rows d b role of
        Some r \<Rightarrow> Some r
      | None \<Rightarrow> if role \<in> set ROLE_ORDER then Some (new_operation d b role) else None)"
  by (auto simp: get_operation_def find_append_cases pending_roles_def find_new_operations
      split: option.splits)

lemma pending_roles_after_initialize:
  "pending_roles (rows @ pending_roles rows d b) d b = []"
proof -
  have "get_operation (rows @ pending_roles rows d b) d b role \<noteq> None"
    if "role \<in> set ROLE_ORDER" for role
    using that by (simp add: get_operation_after_initialize split: option.splits)
  then show ?thesis
    unfolding pending_roles_def [of "rows @ pending_roles rows d b"]
    by (simp add: filter_empty_conv)
qed

lemma unique_filter_single:
  assumes "distinct (map op_key xs)" and "find (matches d b role) xs = Some r"
  shows "filter (matches d b role) xs = [r]"
  using assms
proof (induction xs)
  case Nil
  then show ?case by simp
next
  case (Cons x xs)
  show ?case
  proof (cases "matches d b role x")
    case True
    then have "x = r" using Cons.prems(2) by simp
    moreover have "filter (matches d b role) xs = []"
      using True Cons.prems(1) by (force simp: filter_empty_conv matches_key)
    ultimately show ?thesis using True by simp
  next
    case False
    then show ?thesis using Cons by simp
  qed
qed

text \<open>
  C9, as the claim states it, fails: batch D is not offered on Monday 15 January 2024,
  \<open>initialize_batch\<close> returns failure for it and creates no record.
\<close>

theorem initialize_batch_unavailable_fails:
  "\<not> fst (initialize_batch [] monday ''D'') \<and>
   get_operation (snd (initialize_batch [] monday ''D'')) monday ''D'' ''Procurement'' = None"
  by (simp add: initialize_batch_def is_batch_available_def get_operation_def calendar_defs)

lemma initialize_batch_unavailable:
  "\<not> is_batch_available d b \<Longrightarrow> initialize_batch rows d b = (False, rows)"
  by (simp add: initialize_batch_def)

lemma initialize_batch_year_refused:
  assumes "is_batch_available d b" and "\<not> (2024 \<le> year d \<and> year d \<le> 2100)"
      and "\<exists>role \<in> set ROLE_ORDER. get_operation rows d b role = None"
  shows "initialize_batch rows d b = (False, rows)"
proof -
  from assms(3) have "filter (\<lambda>role. get_operation rows d b role = None) ROLE_ORDER \<noteq> []"
    by (simp add: filter_empty_conv)
  then obtain role roles where
    "filter (\<lambda>role. get_operation rows d b role = None) ROLE_ORDER = role # roles"
    by (cases "filter (\<lambda>role. get_operation rows d b role = None) ROLE_ORDER") auto
  then have p: "pending_roles rows d b =
      new_operation d b role # map (new_operation d b) roles"
    by (simp add: pending_roles_def)
  have "\<not> row_constraints (new_operation d b role)"
    using assms(2) by (auto simp: row_constraints_def valid_year_def new_operation_def)
  then have "insert_all rows (pending_roles rows d b) = Inl IntegrityError"
    by (simp add: p insert_row_def)
  with assms(1) show ?thesis
    by (simp add: initialize_batch_def)
qed

lemma initialize_batch_available_result:
  assumes "unique_operation rows" and "is_batch_available d b"
      and "2024 \<le> year d" and "year d \<le> 2100"
  shows "\<exists>rows'. initialize_batch rows d b = (True, rows') \<and>
           length ROLE_ORDER = 11 \<and>
           (\<forall>role \<in> set ROLE_ORDER. \<exists>r.
              filter (matches d b role) rows' = [r] \<and>
              (get_operation rows d b role = None \<longrightarrow>
                 r = new_operation d b role \<and> status r = PENDING) \<and>
              (get_operation rows d b role \<noteq> None \<longrightarrow> get_operation rows d b role = Some r)) \<and>
           take (length rows) rows' = rows \<and>
           length rows' =
             length rows + length (filter (\<lambda>role. get_operation rows d b role = None) ROLE_ORDER) \<and>
           initialize_batch rows' d b = (True, rows')"
proof -
  let ?rows' = "rows @ pending_roles rows d b"
  have first: "initialize_batch rows d b = (True, ?rows')"
    using assms(2-4) by (rule initialize_batch_result)
  have second: "initialize_batch ?rows' d b = (True, ?rows')"
    using initialize_batch_result [OF assms(2-4), of ?rows']
    by (simp add: pending_roles_after_initialize)
  have u: "distinct (map op_key ?rows')"
    using initialize_batch_unique [OF assms(1), of d b] first
    by (simp add: unique_operation_def)
  have one: "\<exists>r. filter (matches d b role) ?rows' = [r] \<and>
      (get_operation rows d b role = None \<longrightarrow>
         r = new_operation d b role \<and> status r = PENDING) \<and>
      (get_operation rows d b role \<noteq> None \<longrightarrow> get_operation rows d b role = Some r)"
    if role: "role \<in> set ROLE_ORDER" for role
  proof (cases "get_operation rows d b role")
    case None
    then have "find (matches d b role) ?rows' = Some (new_operation d b role)"
      using get_operation_after_initialize [of rows d b role] role
      by (simp add: get_operation_def)
    from unique_filter_single [OF u this] None show ?thesis
      by (simp add: status_def new_operation_def)
  next
    case (Some r)
    then have "find (matches d b role) ?rows' = Some r"
      using get_operation_after_initialize [of rows d b role]
      by (simp add: get_operation_def)
    from unique_filter_single [OF u this] Some show ?thesis
      by simp
  qed
  have len: "length ?rows' =
      length rows + length (filter (\<lambda>role. get_operation rows d b role = None) ROLE_ORDER)"
    by (simp add: pending_roles_def)
  have "length ROLE_ORDER = 11"
    using TOTAL_ROLES_11 by (simp add: TOTAL_ROLES_def)
  with first second one len show ?thesis
    by (intro exI [of _ ?rows']) simp
qed

text \<open>
  C9, amended. When the batch is offered on the date and the year of the date is within
  the range the table accepts, 2024 to 2100, \<open>initialize_batch\<close> on a table with unique
  keys succeeds; afterwards each of the eleven roles has exactly one record for the date
  and batch, a PENDING one where the call created it; the records that existed are kept
  as they were, in front of the new ones, and only roles without a record got one.
  A second call with the same arguments succeeds again and returns the same table.
  For a batch that is not offered on the date the call returns failure and leaves the
  table as it is, and so it does for an offered batch when the year is outside that range
  and some role has no record yet, the table refusing the new row.
\<close>

theorem initialize_batch_idempotent:
  "(unique_operation rows \<and> is_batch_available d b \<and> 2024 \<le> year d \<and> year d \<le> 2100 \<longrightarrow>
      (\<exists>rows'. initialize_batch rows d b = (True, rows') \<and>
         length ROLE_ORDER = 11 \<and>
         (\<forall>role \<in> set ROLE_ORDER. \<exists>r.
            filter (matches d b role) rows' = [r] \<and>
            (get_operation rows d b role = None \<longrightarrow>
               r = new_operation d b role \<and> status r = PENDING) \<and>
            (get_operation rows d b role \<noteq> None \<longrightarrow> get_operation rows d b role = Some r)) \<and>
         take (length rows) rows' = rows \<and>
         length rows' =
           length rows +
           length (filter (\<lambda>role. get_operation rows d b role = None) ROLE_ORDER) \<and>
         initialize_batch rows' d b = (True, rows'))) \<and>
   (\<not> is_batch_available d b \<longrightarrow> initialize_batch rows d b = (False, rows)) \<and>
   (is_batch_available d b \<and> \<not> (2024 \<le> year d \<and> year d \<le> 2100) \<and>
    (\<exists>role \<in> set ROLE_ORDER. get_operation rows d b role = None) \<longrightarrow>
      initialize_batch rows d b = (False, rows))"
  using initialize_batch_available_result [of rows d b] initialize_batch_unavailable [of d b rows]
    initialize_batch_year_refused [of d b rows]
  by (intro conjI impI) blast+

theorem initialize_batch_idempotent_witness:
  "unique_operation [] \<and> is_batch_available tuesday ''A'' \<and>
   2024 \<le> year tuesday \<and> year tuesday \<le> 2100 \<and>
   (\<exists>rows'. initialize_batch [] tuesday ''A'' = (True, rows') \<and> length rows' = 11 \<and>
      initialize_batch rows' tuesday ''A'' = (True, rows')) \<and>
   \<not> is_batch_available monday ''D'' \<and>
   initialize_batch [] monday ''D'' = (False, []) \<and>
   is_batch_available \<lparr>year = 2023, month = 1, day = 3\<rparr> ''A'' \<and>
   initialize_batch [] \<lparr>year = 2023, month = 1, day = 3\<rparr> ''A'' = (False, [])"
proof -
  have h: "unique_operation []" "is_batch_available tuesday ''A''"
    "2024 \<le> year tuesday" "year tuesday \<le> 2100"
    by (simp_all add: unique_operation_def is_batch_available_def calendar_defs)
  have u: "\<not> is_batch_available monday ''D''"
    by (simp add: is_batch_available_def calendar_defs)
  have y: "is_batch_available \<lparr>year = 2023, month = 1, day = 3\<rparr> ''A''"
    "\<not> (2024 \<le> year \<lparr>year = 2023, month = 1, day = 3\<rparr> \<and>
        year \<lparr>year = 2023, month = 1, day = 3\<rparr> \<le> 2100)"
    "\<exists>role \<in> set ROLE_ORDER.
       get_operation [] \<lparr>year = 2023, month = 1, day = 3\<rparr> ''A'' role = None"
    by (auto simp: is_batch_available_def calendar_defs get_operation_def ROLE_ORDER_def)
  from initialize_batch_idempotent [of "[]" tuesday "''A''"] h
  have a: "\<exists>rows'. initialize_batch [] tuesday ''A'' = (True, rows') \<and> length rows' = 11 \<and>
      initialize_batch rows' tuesday ''A'' = (True, rows')"
    by (auto simp: get_operation_def)
  from initialize_batch_idempotent [of "[]" monday "''D''"] u
  have b: "initialize_batch [] monday ''D'' = (False, [])"
    by blast
  from initialize_batch_idempotent [of "[]" "\<lparr>year = 2023, month = 1, day = 3\<rparr>" "''A''"] y
  have c: "initialize_batch [] \<lparr>year = 2023, month = 1, day = 3\<rparr> ''A'' = (False, [])"
    by blast
  from h u y(1) a b c show ?thesis
    by blast
qed

subsection \<open>Delivery totals of the daily summary\<close>

lemma summary_step_excluded:
  assumes "case get_operation rows d b ''Driver'' of
             None \<Rightarrow> True
           | Some driver_op \<Rightarrow> total_orders driver_op = None \<or> total_orders driver_op = Some 0"
  shows "snd (snd (summary_step rows d acc b)) = snd (snd acc)"
  using assms
  by (cases acc) (auto simp: summary_step_def Let_def split: option.splits)

lemma summary_step_included:
  assumes "get_operation rows d b ''Driver'' = Some driver_op"
      and "total_orders driver_op = Some t" and "t \<noteq> 0"
  shows "fst (snd (snd (summary_step rows d acc b))) = fst (snd (snd acc)) + t"
  using assms
  by (cases acc) (auto simp: summary_step_def Let_def split: option.splits)

lemma summary_step_nonpos:
  assumes "\<forall>r \<in> set rows. operation_date r = d \<and> operation_role r = ''Driver'' \<longrightarrow>
             (\<forall>t. total_orders r = Some t \<longrightarrow> \<not> 0 < t) \<and> on_time_not_exceed_total r"
      and "fst (snd (snd acc)) \<le> 0" and "snd (snd (snd acc)) \<le> 0"
  shows "fst (snd (snd (summary_step rows d acc b))) \<le> 0 \<and>
         snd (snd (snd (summary_step rows d acc b))) \<le> 0"
proof (cases "get_operation rows d b ''Driver''")
  case None
  then show ?thesis
    using assms(2,3) summary_step_excluded [of rows d b acc] by simp
next
  case (Some driver_op)
  then have "driver_op \<in> set rows" and "matches d b ''Driver'' driver_op"
    using get_operation_SomeD by blast+
  then have t: "\<forall>t. total_orders driver_op = Some t \<longrightarrow> \<not> 0 < t"
    and c: "on_time_not_exceed_total driver_op"
    using assms(1) by (auto simp: matches_def)
  show ?thesis
    using Some t c assms(2,3)
    by (cases acc)
       (auto simp: summary_step_def Let_def on_time_not_exceed_total_def split: option.splits)
qed

lemma foldl_summary_step_nonpos:
  assumes "\<forall>r \<in> set rows. operation_date r = d \<and> operation_role r = ''Driver'' \<longrightarrow>
             (\<forall>t. total_orders r = Some t \<longrightarrow> \<not> 0 < t) \<and> on_time_not_exceed_total r"
      and "fst (snd (snd acc)) \<le> 0" and "snd (snd (snd acc)) \<le> 0"
  shows "fst (snd (snd (foldl (summary_step rows d) acc bs))) \<le> 0 \<and>
         snd (snd (snd (foldl (summary_step rows d) acc bs))) \<le> 0"
  using assms(2,3)
proof (induction bs arbitrary: acc)
  case Nil
  then show ?case by simp
next
  case (Cons b bs)
  from summary_step_nonpos [OF assms(1) Cons.prems, of b] show ?case
    by (simp add: Cons.IH)
qed

lemma get_daily_summary_totals:
  "total_orders_delivered (get_daily_summary rows d) =
     (let n = fst (snd (snd (foldl (summary_step rows d) (0, 0, 0, 0)
                (get_available_batches_for_date d))))
      in if 0 < n then Some n else None) \<and>
   total_on_time_deliveries (get_daily_summary rows d) =
     (let k = snd (snd (snd (foldl (summary_step rows d) (0, 0, 0, 0)
                (get_available_batches_for_date d))))
      in if 0 < k then Some k else None)"
  by (simp add: get_daily_summary_def Let_def split: prod.splits)

text \<open>
  C10. In the daily summary a batch's Driver record adds to the delivery totals only when
  its \<open>total_orders\<close> is set and not zero: a batch without a Driver record, or whose Driver
  record has \<open>total_orders\<close> unset or 0, leaves both running sums as they are, and a
  Driver record with \<open>total_orders = t \<noteq> 0\<close> adds \<open>t\<close>. On a well-formed table,
  \<open>total_orders_delivered\<close> and \<open>total_on_time_deliveries\<close> are never reported as 0, and both
  are absent when no Driver record of the date has positive \<open>total_orders\<close>.
\<close>

theorem daily_summary_driver_totals:
  assumes "wf_db rows"
  shows "(\<forall>b acc.
            (case get_operation rows d b ''Driver'' of
               None \<Rightarrow> True
             | Some driver_op \<Rightarrow>
                 total_orders driver_op = None \<or> total_orders driver_op = Some 0)
            \<longrightarrow> snd (snd (summary_step rows d acc b)) = snd (snd acc)) \<and>
         (\<forall>b acc driver_op t.
            get_operation rows d b ''Driver'' = Some driver_op \<and>
            total_orders driver_op = Some t \<and> t \<noteq> 0
            \<longrightarrow> fst (snd (snd (summary_step rows d acc b))) = fst (snd (snd acc)) + t) \<and>
         total_orders_delivered (get_daily_summary rows d) \<noteq> Some 0 \<and>
         total_on_time_deliveries (get_daily_summary rows d) \<noteq> Some 0 \<and>
         ((\<forall>r \<in> set rows. operation_date r = d \<and> operation_role r = ''Driver'' \<longrightarrow>
              (\<forall>t. total_orders r = Some t \<longrightarrow> \<not> 0 < t))
            \<longrightarrow> total_orders_delivered (get_daily_summary rows d) = None \<and>
                total_on_time_deliveries (get_daily_summary rows d) = None)"
proof -
  have c: "\<forall>r \<in> set rows. on_time_not_exceed_total r"
    using assms by (simp add: wf_db_def list_all_iff row_constraints_def)
  have absent: "total_orders_delivered (get_daily_summary rows d) = None \<and>
      total_on_time_deliveries (get_daily_summary rows d) = None"
    if h: "\<forall>r \<in> set rows. operation_date r = d \<and> operation_role r = ''Driver'' \<longrightarrow>
              (\<forall>t. total_orders r = Some t \<longrightarrow> \<not> 0 < t)"
  proof -
    have "\<forall>r \<in> set rows. operation_date r = d \<and> operation_role r = ''Driver'' \<longrightarrow>
             (\<forall>t. total_orders r = Some t \<longrightarrow> \<not> 0 < t) \<and> on_time_not_exceed_total r"
      using h c by blast
    from foldl_summary_step_nonpos [OF this, of "(0, 0, 0, 0)" "get_available_batches_for_date d"]
    show ?thesis
      by (simp add: get_daily_summary_totals Let_def)
  qed
  have never_zero: "total_orders_delivered (get_daily_summary rows d) \<noteq> Some 0"
    "total_on_time_deliveries (get_daily_summary rows d) \<noteq> Some 0"
    by (simp_all add: get_daily_summary_totals Let_def)
  show ?thesis
    using absent never_zero summary_step_excluded [of rows d] summary_step_included [of rows d]
    by (intro conjI) blast+
qed


theorem daily_summary_driver_totals_witness:
  "wf_db [(new_operation tuesday ''A'' ''Driver'')
            \<lparr>start_time := Some 100, end_time := Some 200,
             total_orders := Some 0, on_time_deliveries := Some 0\<rparr>] \<and>
   total_orders ((new_operation tuesday ''A'' ''Driver'')
            \<lparr>start_time := Some 100, end_time := Some 200,
             total_orders := Some 0, on_time_deliveries := Some 0\<rparr>) = Some 0 \<and>
   total_orders_delivered (get_daily_summary
      [(new_operation tuesday ''A'' ''Driver'')
            \<lparr>start_time := Some 100, end_time := Some 200,
             total_orders := Some 0, on_time_deliveries := Some 0\<rparr>] tuesday) = None \<and>
   total_on_time_deliveries (get_daily_summary
      [(new_operation tuesday ''A'' ''Driver'')
            \<lparr>start_time := Some 100, end_time := Some 200,
             total_orders := Some 0, on_time_deliveries := Some 0\<rparr>] tuesday) = None"
proof -
  let ?T = "[(new_operation tuesday ''A'' ''Driver'')
            \<lparr>start_time := Some 100, end_time := Some 200,
             total_orders := Some 0, on_time_deliveries := Some 0\<rparr>]"
  have w: "wf_db ?T"
    by (simp add: wf_db_def unique_operation_def started_before_ended_def table_defs
        ALL_BATCHES_def tuesday_def)
  have h: "\<forall>r \<in> set ?T. operation_date r = tuesday \<and> operation_role r = ''Driver'' \<longrightarrow>
        (\<forall>t. total_orders r = Some t \<longrightarrow> \<not> 0 < t)"
    by simp
  from daily_summary_driver_totals [OF w, of tuesday] h
  have "total_orders_delivered (get_daily_summary ?T tuesday) = None \<and>
        total_on_time_deliveries (get_daily_summary ?T tuesday) = None"
    by blast
  with w show ?thesis
    by simp
qed

end
